theory Spec2Isabelle
  imports Complex_Main "HOL-Library.Multiset" "HOL-Library.Char_ord"
    "HOL-Library.List_Lexorder" "HOL-Library.Product_Lexorder"
begin

section \<open>Python values\<close>

text \<open>
  The responses of the astrology API are parsed JSON: Python's \<^verbatim>\<open>None\<close>, \<^verbatim>\<open>bool\<close>,
  \<^verbatim>\<open>int\<close>, \<^verbatim>\<open>float\<close>, \<^verbatim>\<open>str\<close>, \<^verbatim>\<open>list\<close> and \<^verbatim>\<open>dict\<close>. A dict is an
  association list in insertion order, read with \<^const>\<open>map_of\<close>. Floats are finite
  reals (no NaN, no infinities); strings are \<^typ>\<open>string\<close>, compared in the
  lexicographic order of their characters.
\<close>

datatype json =
    JNull
  | JBool bool
  | JInt int
  | JFloat real
  | JStr string
  | JList "json list"
  | JObj "(string \<times> json) list"

text \<open>
  The exceptions that the modelled code can raise. \<open>HTTPError status reason detail\<close> is the
  \<^verbatim>\<open>requests.HTTPError\<close> built by the client from a response: its status, its reason
  phrase, and the body, parsed (\<open>Inl\<close>) or raw (\<open>Inr\<close>). \<open>RequestError\<close> is any
  exception of the HTTP library or of the token exchange.
\<close>

datatype error =
    AttributeError
  | TypeError
  | ValueError
  | JSONDecodeError
  | RequestError
  | HTTPError int string "json + string"

definition ebind :: "error + 'a \<Rightarrow> ('a \<Rightarrow> error + 'b) \<Rightarrow> error + 'b" where
  "ebind m f = (case m of Inl e \<Rightarrow> Inl e | Inr v \<Rightarrow> f v)"

text \<open>A comprehension or \<^verbatim>\<open>for\<close> loop that appends one result per element and stops at
  the first exception.\<close>

fun emap :: "('a \<Rightarrow> error + 'b) \<Rightarrow> 'a list \<Rightarrow> error + 'b list" where
  "emap f [] = Inr []"
| "emap f (x # xs) = ebind (f x) (\<lambda>y. ebind (emap f xs) (\<lambda>ys. Inr (y # ys)))"

text \<open>Truth value of a Python object (\<^verbatim>\<open>bool(v)\<close>, \<^verbatim>\<open>if v\<close>, \<^verbatim>\<open>v or w\<close>).\<close>

fun truthy :: "json \<Rightarrow> bool" where
  "truthy JNull = False"
| "truthy (JBool b) = b"
| "truthy (JInt i) = (i \<noteq> 0)"
| "truthy (JFloat r) = (r \<noteq> 0)"
| "truthy (JStr s) = (s \<noteq> [])"
| "truthy (JList xs) = (xs \<noteq> [])"
| "truthy (JObj kvs) = (kvs \<noteq> [])"

text \<open>\<^verbatim>\<open>a or b\<close> with both operands already evaluated, and with the right operand
  evaluated only when the left one is falsy.\<close>

definition py_or :: "json \<Rightarrow> json \<Rightarrow> json" where
  "py_or a b = (if truthy a then a else b)"

definition or_else :: "json \<Rightarrow> error + json \<Rightarrow> error + json" where
  "or_else a m = (if truthy a then Inr a else m)"

text \<open>\<^verbatim>\<open>obj.get(key)\<close> and \<^verbatim>\<open>obj.get(key, default)\<close>: only a dict has the method.\<close>

definition py_get_default :: "json \<Rightarrow> string \<Rightarrow> json \<Rightarrow> error + json" where
  "py_get_default obj k d =
     (case obj of
        JObj kvs \<Rightarrow> Inr (case map_of kvs k of None \<Rightarrow> d | Some v \<Rightarrow> v)
      | _ \<Rightarrow> Inl AttributeError)"

definition py_get :: "json \<Rightarrow> string \<Rightarrow> error + json" where
  "py_get obj k = py_get_default obj k JNull"

text \<open>The elements a \<^verbatim>\<open>for\<close> loop visits: those of a list, the one-character strings of
  a string, the keys of a dict; anything else is not iterable.\<close>

definition py_iter :: "json \<Rightarrow> error + json list" where
  "py_iter v =
     (case v of
        JList xs \<Rightarrow> Inr xs
      | JStr s \<Rightarrow> Inr (map (\<lambda>c. JStr [c]) s)
      | JObj kvs \<Rightarrow> Inr (map (\<lambda>kv. JStr (fst kv)) kvs)
      | _ \<Rightarrow> Inl TypeError)"

definition is_list :: "json \<Rightarrow> bool" where
  "is_list v = (case v of JList _ \<Rightarrow> True | _ \<Rightarrow> False)"

definition is_dict :: "json \<Rightarrow> bool" where
  "is_dict v = (case v of JObj _ \<Rightarrow> True | _ \<Rightarrow> False)"

text \<open>Numbers compare by value across \<^verbatim>\<open>bool\<close>, \<^verbatim>\<open>int\<close> and \<^verbatim>\<open>float\<close>.\<close>

fun num_of :: "json \<Rightarrow> real option" where
  "num_of (JBool b) = Some (if b then 1 else 0)"
| "num_of (JInt i) = Some (real_of_int i)"
| "num_of (JFloat r) = Some r"
| "num_of _ = None"

text \<open>\<^verbatim>\<open>a == b\<close>: never raises; lists compare element by element, dicts key by key.\<close>

function (sequential) py_eq :: "json \<Rightarrow> json \<Rightarrow> bool" where
  "py_eq JNull b = (b = JNull)"
| "py_eq (JStr s) b = (b = JStr s)"
| "py_eq (JList xs) b =
     (case b of
        JList ys \<Rightarrow> length xs = length ys \<and> list_all (\<lambda>(x, y). py_eq x y) (zip xs ys)
      | _ \<Rightarrow> False)"
| "py_eq (JObj kvs) b =
     (case b of
        JObj kws \<Rightarrow>
          list_all (\<lambda>(k, v). case map_of kws k of None \<Rightarrow> False | Some w \<Rightarrow> py_eq v w) kvs
          \<and> list_all (\<lambda>(k, w). map_of kvs k \<noteq> None) kws
      | _ \<Rightarrow> False)"
| "py_eq a b = (case num_of b of None \<Rightarrow> False | Some y \<Rightarrow> num_of a = Some y)"
  by pat_completeness auto
termination
proof (relation "measure (\<lambda>(a, b). size a)")
  show "wf (measure (\<lambda>(a, b). size a))" by simp
next
  fix xs ys :: "json list" and b x y :: json and xy :: "json \<times> json"
  assume "xy \<in> set (zip xs ys)" "(x, y) = xy"
  then have "x \<in> set xs" by (auto dest: set_zip_leftD)
  then have "size x \<le> size_list size xs" by (rule size_list_estimation') simp
  then show "((x, y), JList xs, b) \<in> measure (\<lambda>(a, b). size a)" by simp
next
  fix kvs kws :: "(string \<times> json) list" and b v w :: json and k :: string
    and kv :: "string \<times> json"
  assume "kv \<in> set kvs" "(k, v) = kv"
  then have "(k, v) \<in> set kvs" by simp
  then have "size v \<le> size_list (size_prod (\<lambda>x. 0) size) kvs"
    by (rule size_list_estimation') simp
  then show "((v, w), JObj kvs, b) \<in> measure (\<lambda>(a, b). size a)" by simp
qed

text \<open>
  \<^verbatim>\<open>a < b\<close>: numbers by value, strings and lists lexicographically (a list finds the
  first position where the elements are not equal and compares there); any other pair of
  operands raises \<^verbatim>\<open>TypeError\<close>.
\<close>

fun py_lt :: "json \<Rightarrow> json \<Rightarrow> error + bool"
  and py_lt_list :: "json list \<Rightarrow> json list \<Rightarrow> error + bool" where
  "py_lt (JStr s) b = (case b of JStr t \<Rightarrow> Inr (s < t) | _ \<Rightarrow> Inl TypeError)"
| "py_lt (JList xs) b = (case b of JList ys \<Rightarrow> py_lt_list xs ys | _ \<Rightarrow> Inl TypeError)"
| "py_lt a b =
     (case (num_of a, num_of b) of (Some x, Some y) \<Rightarrow> Inr (x < y) | _ \<Rightarrow> Inl TypeError)"
| "py_lt_list [] ys = Inr (ys \<noteq> [])"
| "py_lt_list (x # xs) [] = Inr False"
| "py_lt_list (x # xs) (y # ys) = (if py_eq x y then py_lt_list xs ys else py_lt x y)"

text \<open>
  \<^verbatim>\<open>str(v)\<close>. The text of a float, a list or a dict is Python's \<^verbatim>\<open>repr\<close>, which is
  not modelled: it is the parameter \<open>rp\<close>.
\<close>

function show_nat :: "nat \<Rightarrow> string" where
  "show_nat n =
     (if n < 10 then [''0123456789'' ! n]
      else show_nat (n div 10) @ [''0123456789'' ! (n mod 10)])"
  by pat_completeness auto
termination
  by (relation "measure id") auto

definition show_int :: "int \<Rightarrow> string" where
  "show_int i = (if i < 0 then CHR ''-'' # show_nat (nat (- i)) else show_nat (nat i))"

fun py_str :: "(json \<Rightarrow> string) \<Rightarrow> json \<Rightarrow> string" where
  "py_str rp JNull = ''None''"
| "py_str rp (JBool b) = (if b then ''True'' else ''False'')"
| "py_str rp (JInt i) = show_int i"
| "py_str rp (JStr s) = s"
| "py_str rp v = rp v"

section \<open>\<^verbatim>\<open>list.sort\<close> with a key\<close>

text \<open>
  \<^verbatim>\<open>rows.sort(key=f)\<close> computes the key of every row first, then orders the pairs of key
  and row by comparing keys with \<^verbatim>\<open><\<close> only. The list is sorted in place, and when a
  comparison raises, the exception leaves the sort with the list as far as it had been
  rearranged (the Python documentation: the list is likely left in a partially modified
  state). The procedure below is the one CPython runs on a list of fewer than 64 elements:
  \<^verbatim>\<open>count_run\<close> finds the run the list starts with, ascending or strictly descending (a
  descending run is reversed), and \<^verbatim>\<open>binarysort\<close> inserts every later element into the
  sorted part in front of it, at the place a binary search finds. On longer lists CPython
  sorts stretches this way and merges them; the outcome of a sort in which no comparison
  raises is the same stable order.

  The outcome is the list as the sort leaves it, with the exception if one was raised.
\<close>

fun scan_run :: "bool \<Rightarrow> ('k \<Rightarrow> 'k \<Rightarrow> error + bool) \<Rightarrow> 'k \<Rightarrow> 'k list \<Rightarrow> nat \<Rightarrow> error + nat" where
  "scan_run desc lt prev [] n = Inr n"
| "scan_run desc lt prev (x # xs) n =
     (case lt x prev of
        Inl e \<Rightarrow> Inl e
      | Inr b \<Rightarrow> if b = desc then scan_run desc lt x xs (Suc n) else Inr n)"

definition count_run :: "('k \<Rightarrow> 'k \<Rightarrow> error + bool) \<Rightarrow> 'k list \<Rightarrow> error + nat \<times> bool" where
  "count_run lt ks =
     (case ks of
        [] \<Rightarrow> Inr (0, False)
      | [k] \<Rightarrow> Inr (1, False)
      | k0 # k1 # rest \<Rightarrow>
          (case lt k1 k0 of
             Inl e \<Rightarrow> Inl e
           | Inr desc \<Rightarrow>
               (case scan_run desc lt k1 rest 2 of
                  Inl e \<Rightarrow> Inl e
                | Inr n \<Rightarrow> Inr (n, desc))))"

text \<open>The binary search of \<^verbatim>\<open>binarysort\<close>: the place of \<open>pivot\<close> among
  \<open>ks ! l, \<dots>, ks ! (r - 1)\<close>, after the elements that are not greater.\<close>

function bisect :: "('k \<Rightarrow> 'k \<Rightarrow> error + bool) \<Rightarrow> 'k \<Rightarrow> 'k list \<Rightarrow> nat \<Rightarrow> nat \<Rightarrow> error + nat" where
  "bisect lt pivot ks l r =
     (if l < r then
        (let p = l + (r - l) div 2 in
         case lt pivot (ks ! p) of
           Inl e \<Rightarrow> Inl e
         | Inr True \<Rightarrow> bisect lt pivot ks l p
         | Inr False \<Rightarrow> bisect lt pivot ks (Suc p) r)
      else Inr l)"
  by pat_completeness auto
termination
  by (relation "measure (\<lambda>(lt, pivot, ks, l, r). r - l)") auto

text \<open>\<open>binarysort lt pre rest\<close>: \<open>pre\<close> is the sorted part, \<open>rest\<close> the elements still
  to insert, together the list in its current order.\<close>

fun binarysort :: "('k \<Rightarrow> 'k \<Rightarrow> error + bool) \<Rightarrow> ('k \<times> 'v) list \<Rightarrow> ('k \<times> 'v) list
    \<Rightarrow> ('k \<times> 'v) list \<times> error option" where
  "binarysort lt pre [] = (pre, None)"
| "binarysort lt pre (pivot # rest) =
     (case bisect lt (fst pivot) (map fst pre) 0 (length pre) of
        Inl e \<Rightarrow> (pre @ pivot # rest, Some e)
      | Inr l \<Rightarrow> binarysort lt (take l pre @ pivot # drop l pre) rest)"

definition list_sort :: "('k \<Rightarrow> 'k \<Rightarrow> error + bool) \<Rightarrow> ('k \<times> 'v) list
    \<Rightarrow> ('k \<times> 'v) list \<times> error option" where
  "list_sort lt items =
     (if length items < 2 then (items, None)
      else
        (case count_run lt (map fst items) of
           Inl e \<Rightarrow> (items, Some e)
         | Inr (n, desc) \<Rightarrow>
             binarysort lt (if desc then rev (take n items) else take n items)
               (drop n items)))"

definition sort_by_key :: "('v \<Rightarrow> 'k) \<Rightarrow> ('k \<Rightarrow> 'k \<Rightarrow> error + bool) \<Rightarrow> 'v list
    \<Rightarrow> 'v list \<times> error option" where
  "sort_by_key key lt rows =
     (case list_sort lt (map (\<lambda>r. (key r, r)) rows) of
        (items, err) \<Rightarrow> (map snd items, err))"

declare bisect.simps [simp del]

section \<open>Response normalizer (app.py)\<close>

subsection \<open>Field extraction shared by the flattening functions\<close>

text \<open>
  \<^verbatim>\<open>p.get("degree") or p.get("longitude") or (p.get(nested) or {}).get("degree")\<close>, with
  \<open>nested\<close> the key \<^verbatim>\<open>position\<close> for a planet and \<^verbatim>\<open>cusp\<close> for a house.
\<close>

definition extract_degree :: "string \<Rightarrow> json \<Rightarrow> error + json" where
  "extract_degree nested p =
     ebind (py_get p ''degree'') (\<lambda>d.
     or_else d (ebind (py_get p ''longitude'') (\<lambda>lon.
     or_else lon (ebind (py_get p nested) (\<lambda>pos.
     py_get (py_or pos (JObj [])) ''degree'')))))"

text \<open>
  The retrograde flag of a planet element:
  \<^verbatim>\<open>retro = p.get("retro")\<close>;
  \<^verbatim>\<open>if retro is None: retro = p.get("is_retro")\<close>;
  \<^verbatim>\<open>if retro is None: retro = (p.get("motion") == "retrograde")\<close>;
  and the row stores \<^verbatim>\<open>bool(retro) if retro is not None else None\<close>.
\<close>

definition resolve_retro :: "json \<Rightarrow> error + bool option" where
  "resolve_retro p =
     ebind (py_get p ''retro'') (\<lambda>r0.
     ebind (if r0 = JNull then py_get p ''is_retro'' else Inr r0) (\<lambda>r1.
     ebind (if r1 = JNull
            then ebind (py_get p ''motion'') (\<lambda>m. Inr (JBool (py_eq m (JStr ''retrograde''))))
            else Inr r1) (\<lambda>retro.
     Inr (if retro \<noteq> JNull then Some (truthy retro) else None))))"

text \<open>\<^verbatim>\<open>obj.get("vedic_name") or obj.get("name")\<close> and
  \<^verbatim>\<open>obj.get("name") or obj.get("vedic_name")\<close>.\<close>

definition get_or_get :: "json \<Rightarrow> string \<Rightarrow> string \<Rightarrow> error + json" where
  "get_or_get obj k1 k2 = ebind (py_get obj k1) (\<lambda>v. or_else v (py_get obj k2))"

text \<open>The sort key \<^verbatim>\<open>r["House No"] if r["House No"] is not None else 99\<close>.\<close>

definition house_key :: "json \<Rightarrow> json" where
  "house_key house_no = (if house_no \<noteq> JNull then house_no else JInt 99)"

text \<open>\<^verbatim>\<open><\<close> on the key tuples \<^verbatim>\<open>(house, str(planet))\<close>: the first components are tested
  for equality, and the first pair of unequal components decides.\<close>

definition tuple_lt :: "json \<times> string \<Rightarrow> json \<times> string \<Rightarrow> error + bool" where
  "tuple_lt k1 k2 =
     (if py_eq (fst k1) (fst k2) then Inr (snd k1 < snd k2) else py_lt (fst k1) (fst k2))"

subsection \<open>\<^verbatim>\<open>flatten_divisional_positions\<close>\<close>

record div_row =
  dr_house_no :: json
  dr_house :: json
  dr_rasi :: json
  dr_rasi_lord :: json
  dr_planet :: json
  dr_planet_vedic :: json
  dr_nakshatra :: json
  dr_nakshatra_lord :: json
  dr_pada :: json
  dr_degree :: json
  dr_retro :: "bool option"

text \<open>The body of the inner loop, for one element \<open>p\<close> of \<^verbatim>\<open>planet_positions\<close>.\<close>

definition div_planet_row :: "json \<Rightarrow> json \<Rightarrow> json \<Rightarrow> json \<Rightarrow> json \<Rightarrow> error + div_row" where
  "div_planet_row house_no house_name rasi_name rasi_lord_name p =
     ebind (py_get p ''planet'') (\<lambda>pl. let planet = py_or pl (JObj []) in
     ebind (py_get p ''nakshatra'') (\<lambda>nk. let nak = py_or nk (JObj []) in
     ebind (get_or_get planet ''name'' ''vedic_name'') (\<lambda>planet_name.
     ebind (py_get planet ''vedic_name'') (\<lambda>pv. let planet_vedic = py_or pv (JStr []) in
     ebind (py_get nak ''name'') (\<lambda>nak_name.
     ebind (py_get nak ''lord'') (\<lambda>nl. let nak_lord = py_or nl (JObj []) in
     ebind (get_or_get nak_lord ''vedic_name'' ''name'') (\<lambda>nak_lord_name.
     ebind (py_get nak ''pada'') (\<lambda>npada.
     ebind (or_else npada (py_get p ''pada'')) (\<lambda>pada.
     ebind (extract_degree ''position'' p) (\<lambda>degree.
     ebind (resolve_retro p) (\<lambda>retro.
     Inr \<lparr> dr_house_no = house_no, dr_house = house_name, dr_rasi = rasi_name,
           dr_rasi_lord = rasi_lord_name, dr_planet = planet_name,
           dr_planet_vedic = planet_vedic, dr_nakshatra = nak_name,
           dr_nakshatra_lord = nak_lord_name, dr_pada = pada, dr_degree = degree,
           dr_retro = retro \<rparr>)))))))))))"

text \<open>The body of the outer loop, for one element \<open>house\<close> of the positions: the rows
  it appends.\<close>

definition div_house_rows :: "json \<Rightarrow> error + div_row list" where
  "div_house_rows house =
     ebind (py_get_default house ''house'' (JObj [])) (\<lambda>hi. let house_info = py_or hi (JObj []) in
     ebind (py_get_default house ''rasi'' (JObj [])) (\<lambda>ri. let rasi_info = py_or ri (JObj []) in
     ebind (py_get rasi_info ''lord'') (\<lambda>rl. let rasi_lord = py_or rl (JObj []) in
     ebind (py_get house_info ''number'') (\<lambda>house_no.
     ebind (py_get house_info ''name'') (\<lambda>house_name.
     ebind (py_get rasi_info ''name'') (\<lambda>rasi_name.
     ebind (get_or_get rasi_lord ''vedic_name'' ''name'') (\<lambda>rasi_lord_name.
     ebind (py_get house ''planet_positions'') (\<lambda>pp.
     ebind (py_iter (py_or pp (JList []))) (\<lambda>planet_positions.
     emap (div_planet_row house_no house_name rasi_name rasi_lord_name) planet_positions)))))))))"

text \<open>The sorting step, with the exception it ends with, if any.\<close>

definition sort_div_rows :: "(json \<Rightarrow> string) \<Rightarrow> div_row list \<Rightarrow> div_row list \<times> error option" where
  "sort_div_rows rp rows =
     sort_by_key (\<lambda>r. (house_key (dr_house_no r), py_str rp (dr_planet r))) tuple_lt rows"

definition flatten_divisional_positions :: "(json \<Rightarrow> string) \<Rightarrow> json \<Rightarrow> error + div_row list" where
  "flatten_divisional_positions rp resp_json =
     ebind (py_get_default resp_json ''data'' resp_json) (\<lambda>root'.
     ebind (py_get root' ''divisional_positions'') (\<lambda>dp.
     ebind (or_else dp (ebind (py_get root' ''positions'') (\<lambda>ps. Inr (py_or ps (JList []))))) (\<lambda>positions.
     ebind (py_iter positions) (\<lambda>houses.
     ebind (emap div_house_rows houses) (\<lambda>rowss.
     Inr (fst (sort_div_rows rp (concat rowss))))))))"

subsection \<open>\<^verbatim>\<open>flatten_kundli_planets\<close>\<close>

record kp_row =
  kp_house_no :: json
  kp_planet :: json
  kp_planet_vedic :: json
  kp_rasi :: json
  kp_rasi_lord :: json
  kp_nakshatra :: json
  kp_nakshatra_lord :: json
  kp_pada :: json
  kp_degree :: json
  kp_retro :: "bool option"

text \<open>The loop \<^verbatim>\<open>for key in keys: v = root.get(key); if isinstance(v, list): ... break\<close>:
  the first of the keys that holds a list, with the list.\<close>

fun first_list :: "json \<Rightarrow> string list \<Rightarrow> error + json list option" where
  "first_list root' [] = Inr None"
| "first_list root' (key # keys) =
     ebind (py_get root' key) (\<lambda>v.
       case v of JList xs \<Rightarrow> Inr (Some xs) | _ \<Rightarrow> first_list root' keys)"

definition kundli_planet_row :: "json \<Rightarrow> error + kp_row" where
  "kundli_planet_row p =
     ebind (py_get p ''planet'') (\<lambda>pl. let planet = py_or pl p in
     ebind (get_or_get planet ''name'' ''vedic_name'') (\<lambda>planet_name.
     ebind (py_get planet ''vedic_name'') (\<lambda>pv. let planet_vedic = py_or pv (JStr []) in
     ebind (py_get p ''sign'') (\<lambda>s1.
     ebind (or_else s1 (ebind (py_get p ''rasi'') (\<lambda>s2.
            or_else s2 (ebind (py_get p ''zodiac'') (\<lambda>s3. Inr (py_or s3 (JObj []))))))) (\<lambda>sign.
     ebind (py_get sign ''name'') (\<lambda>sign_name.
     ebind (py_get sign ''lord'') (\<lambda>sl. let sign_lord = py_or sl (JObj []) in
     ebind (get_or_get sign_lord ''vedic_name'' ''name'') (\<lambda>sign_lord_name.
     ebind (py_get p ''nakshatra'') (\<lambda>nk. let nak = py_or nk (JObj []) in
     ebind (py_get nak ''name'') (\<lambda>nak_name.
     ebind (py_get nak ''lord'') (\<lambda>nl. let nak_lord = py_or nl (JObj []) in
     ebind (get_or_get nak_lord ''vedic_name'' ''name'') (\<lambda>nak_lord_name.
     ebind (py_get nak ''pada'') (\<lambda>npada.
     ebind (or_else npada (py_get p ''pada'')) (\<lambda>pada.
     ebind (extract_degree ''position'' p) (\<lambda>degree.
     ebind (py_get p ''house'') (\<lambda>h.
     ebind (py_get (py_or h (JObj [])) ''number'') (\<lambda>house_no.
     ebind (resolve_retro p) (\<lambda>retro.
     Inr \<lparr> kp_house_no = house_no, kp_planet = planet_name,
           kp_planet_vedic = planet_vedic, kp_rasi = sign_name,
           kp_rasi_lord = sign_lord_name, kp_nakshatra = nak_name,
           kp_nakshatra_lord = nak_lord_name, kp_pada = pada, kp_degree = degree,
           kp_retro = retro \<rparr>))))))))))))))))))"

definition sort_kp_rows :: "(json \<Rightarrow> string) \<Rightarrow> kp_row list \<Rightarrow> kp_row list \<times> error option" where
  "sort_kp_rows rp rows =
     sort_by_key (\<lambda>r. (house_key (kp_house_no r), py_str rp (kp_planet r))) tuple_lt rows"

definition flatten_kundli_planets :: "(json \<Rightarrow> string) \<Rightarrow> json \<Rightarrow> error + kp_row list" where
  "flatten_kundli_planets rp resp_json =
     ebind (py_get_default resp_json ''data'' resp_json) (\<lambda>root'.
     ebind (first_list root'
              [''planets'', ''planet_positions'', ''grahas'', ''graha_positions'', ''bodies'']) (\<lambda>found.
     case found of
       None \<Rightarrow> Inr []
     | Some candidates \<Rightarrow>
         if candidates = [] then Inr []
         else ebind (emap kundli_planet_row candidates) (\<lambda>rows.
              Inr (fst (sort_kp_rows rp rows)))))"

subsection \<open>\<^verbatim>\<open>flatten_kundli_houses\<close>\<close>

record kh_row =
  kh_house_no :: json
  kh_house :: json
  kh_rasi :: json
  kh_degree :: json


definition sort_kh_rows :: "kh_row list \<Rightarrow> kh_row list \<times> error option" where
  "sort_kh_rows rows = sort_by_key (\<lambda>r. house_key (kh_house_no r)) py_lt rows"


section \<open>Dasha chain resolver (app.py)\<close>

text \<open>
  \<^verbatim>\<open>_parse_dt\<close> wraps \<^verbatim>\<open>pd.to_datetime\<close>, which is not part of the repository: it is
  the parameter \<open>to_datetime\<close>, which raises, or returns \<^verbatim>\<open>None\<close> (for \<^verbatim>\<open>None\<close>),
  or returns an instant. Instants are values of a linear order \<open>'ts\<close>: all of them on one
  time line, so that any two compare. (A value that compares false with every instant,
  as pandas' \<^verbatim>\<open>NaT\<close> does, covers nothing, as \<^verbatim>\<open>None\<close> does, and is modelled by
  \<open>None\<close>; pandas refuses to order an offset-aware and a naive instant, a mix which is
  outside this model.)
\<close>

definition parse_dt :: "(json \<Rightarrow> error + 'ts option) \<Rightarrow> json \<Rightarrow> 'ts option" where
  "parse_dt to_datetime s = (case to_datetime s of Inl e \<Rightarrow> None | Inr v \<Rightarrow> v)"

text \<open>\<^verbatim>\<open>p.get(k1) or p.get(k2) or p.get(k3)\<close>.\<close>

definition get_or3 :: "json \<Rightarrow> string \<Rightarrow> string \<Rightarrow> string \<Rightarrow> error + json" where
  "get_or3 p k1 k2 k3 =
     ebind (py_get p k1) (\<lambda>a.
     or_else a (ebind (py_get p k2) (\<lambda>b.
     or_else b (py_get p k3))))"

text \<open>The loop of \<^verbatim>\<open>_find_period_covering\<close> over the elements of the list.\<close>

fun scan_periods :: "(json \<Rightarrow> error + ('ts::linorder) option) \<Rightarrow> json list \<Rightarrow> 'ts
    \<Rightarrow> error + json option" where
  "scan_periods to_datetime [] now_ts = Inr None"
| "scan_periods to_datetime (p # ps) now_ts =
     ebind (get_or3 p ''start'' ''start_time'' ''from'') (\<lambda>sv.
     let s = parse_dt to_datetime sv in
     ebind (get_or3 p ''end'' ''end_time'' ''to'') (\<lambda>ev.
     let e = parse_dt to_datetime ev in
     if s \<noteq> None \<and> e \<noteq> None \<and> the s \<le> now_ts \<and> now_ts \<le> the e
     then Inr (Some p)
     else scan_periods to_datetime ps now_ts))"

definition find_period_covering :: "(json \<Rightarrow> error + ('ts::linorder) option) \<Rightarrow> json \<Rightarrow> 'ts
    \<Rightarrow> error + json option" where
  "find_period_covering to_datetime periods now_ts =
     (case periods of
        JList ps \<Rightarrow> scan_periods to_datetime ps now_ts
      | _ \<Rightarrow> Inr None)"








text \<open>
  An instance of the parameter for the scenarios: calendar dates \<^verbatim>\<open>YYYY-MM-DD\<close> read as
  year, month and day, ordered lexicographically; \<^verbatim>\<open>None\<close> gives \<^verbatim>\<open>None\<close>; anything
  else is refused.
\<close>

definition digit_val :: "char \<Rightarrow> nat" where
  "digit_val c = of_char c - 48"

definition to_datetime_ymd :: "json \<Rightarrow> error + (nat \<times> nat \<times> nat) option" where
  "to_datetime_ymd v =
     (case v of
        JNull \<Rightarrow> Inr None
      | JStr s \<Rightarrow>
          (case s of
             [y1, y2, y3, y4, a, m1, m2, b, d1, d2] \<Rightarrow>
               if list_all (\<lambda>c. c \<in> set ''0123456789'') [y1, y2, y3, y4, m1, m2, d1, d2]
                  \<and> a = CHR ''-'' \<and> b = CHR ''-''
               then Inr (Some (1000 * digit_val y1 + 100 * digit_val y2 + 10 * digit_val y3
                                 + digit_val y4,
                               10 * digit_val m1 + digit_val m2,
                               10 * digit_val d1 + digit_val d2))
               else Inl ValueError
           | _ \<Rightarrow> Inl ValueError)
      | _ \<Rightarrow> Inl TypeError)"

section \<open>The sandbox-date substitution of the API client\<close>

text \<open>
  \<^verbatim>\<open>ProkeralaClient._force_jan1\<close> (kundli_services.py) matches its argument against
  \<^verbatim>\<open>(\d{4})-(\d{2})-(\d{2})T(\d{2}:\d{2}:\d{2})([+-]\d{2}:\d{2})$\<close> with
  \<^verbatim>\<open>re.match\<close>. The match is anchored at the start of the string; the final
  \<^verbatim>\<open>$\<close> of Python's \<^verbatim>\<open>re\<close> matches at the end of the string and also just
  before a newline that ends the string. Strings are \<^typ>\<open>string\<close>; \<^verbatim>\<open>\d\<close> is
  read on the ASCII digits.
\<close>

definition is_digit :: "char \<Rightarrow> bool" where
  "is_digit c = (c \<in> set ''0123456789'')"

definition newline :: char where
  "newline = CHR 0x0A"

text \<open>
  The five groups of the pattern (year, month, day, time of day, offset) when the
  string matches, \<open>None\<close> when \<^verbatim>\<open>re.match\<close> returns no match.
\<close>

definition jan1_groups :: "string \<Rightarrow> (string \<times> string \<times> string \<times> string \<times> string) option" where
  "jan1_groups s =
     (case s of
        y1 # y2 # y3 # y4 # a # m1 # m2 # b # d1 # d2 # t #
        h1 # h2 # c1 # n1 # n2 # c2 # s1 # s2 # sg # o1 # o2 # c3 # o3 # o4 # rest \<Rightarrow>
          if is_digit y1 \<and> is_digit y2 \<and> is_digit y3 \<and> is_digit y4 \<and> a = CHR ''-''
           \<and> is_digit m1 \<and> is_digit m2 \<and> b = CHR ''-''
           \<and> is_digit d1 \<and> is_digit d2 \<and> t = CHR ''T''
           \<and> is_digit h1 \<and> is_digit h2 \<and> c1 = CHR '':''
           \<and> is_digit n1 \<and> is_digit n2 \<and> c2 = CHR '':''
           \<and> is_digit s1 \<and> is_digit s2
           \<and> (sg = CHR ''+'' \<or> sg = CHR ''-'')
           \<and> is_digit o1 \<and> is_digit o2 \<and> c3 = CHR '':''
           \<and> is_digit o3 \<and> is_digit o4
           \<and> (rest = [] \<or> rest = [newline])
          then Some ([y1, y2, y3, y4], [m1, m2], [d1, d2],
                     [h1, h2, c1, n1, n2, c2, s1, s2], [sg, o1, o2, c3, o3, o4])
          else None
      | _ \<Rightarrow> None)"

definition force_jan1 :: "string \<Rightarrow> string" where
  "force_jan1 iso_local =
     (case jan1_groups iso_local of
        None \<Rightarrow> iso_local
      | Some (year, _, _, hms, off) \<Rightarrow> year @ ''-01-01T'' @ hms @ off)"

section \<open>The endpoint operations of the API client\<close>

text \<open>
  What the client reads of a \<^verbatim>\<open>requests.Response\<close>: \<^verbatim>\<open>status_code\<close>, \<^verbatim>\<open>reason\<close>,
  \<^verbatim>\<open>text\<close>, and \<^verbatim>\<open>json()\<close>, which raises when the body is not JSON (\<open>None\<close>).
\<close>

record response =
  status_code :: int
  reason :: string
  body_text :: string
  body_json :: "json option"

definition resp_json_of :: "response \<Rightarrow> error + json" where
  "resp_json_of r = (case body_json r of None \<Rightarrow> Inl JSONDecodeError | Some j \<Rightarrow> Inr j)"

definition resp_text_of :: "response \<Rightarrow> error + string" where
  "resp_text_of r = Inr (body_text r)"

text \<open>\<^verbatim>\<open>Response.raise_for_status\<close> of the requests library raises for the client and
  server error statuses 400 to 599.\<close>

definition raise_for_status :: "response \<Rightarrow> error + unit" where
  "raise_for_status r =
     (if 400 \<le> status_code r \<and> status_code r < 600
      then Inl (HTTPError (status_code r) (reason r) (Inr []))
      else Inr ())"

text \<open>\<^verbatim>\<open>any(e.get("code") == "1004" for e in msg.get("errors", []))\<close>.\<close>

fun any_code_1004 :: "json list \<Rightarrow> error + bool" where
  "any_code_1004 [] = Inr False"
| "any_code_1004 (e # es) =
     ebind (py_get e ''code'') (\<lambda>c.
       if py_eq c (JStr ''1004'') then Inr True else any_code_1004 es)"

definition has_code_1004 :: "json \<Rightarrow> error + bool" where
  "has_code_1004 msg =
     ebind (py_get_default msg ''errors'' (JList [])) (\<lambda>errs.
     ebind (py_iter errs) any_code_1004)"

text \<open>
  The four methods \<^verbatim>\<open>get_chart_svg\<close>, \<^verbatim>\<open>get_divisional_planet_position\<close>,
  \<^verbatim>\<open>get_kundli\<close> and \<^verbatim>\<open>get_dasha_periods\<close> have one body, apart from the URL and the
  query parameters of the request and from what they return of a response: its text for
  the chart, its parsed JSON for the others (\<open>payload\<close>). \<open>token\<close> is the outcome of
  \<^verbatim>\<open>self._get_token()\<close>; \<open>call n datetime_value\<close> is the outcome of the \<open>n\<close>-th
  request, sent with the given timestamp: a response, or an exception of the HTTP
  library. The result is the list of the timestamps sent, in order, and what the method
  returns or raises.

  \<open>sandbox_attempt\<close> is the \<^verbatim>\<open>try\<close> block: the timestamps it sent and, if it returned,
  the value; every exception inside it is caught and dropped.
\<close>

definition sandbox_attempt :: "(response \<Rightarrow> error + 'a) \<Rightarrow> (nat \<Rightarrow> string \<Rightarrow> error + response)
    \<Rightarrow> string \<Rightarrow> response \<Rightarrow> string list \<times> ('a \<times> bool) option" where
  "sandbox_attempt payload call birth_iso resp =
     (case resp_json_of resp of
        Inl e \<Rightarrow> ([], None)
      | Inr msg \<Rightarrow>
          if status_code resp = 400 \<and> is_dict msg then
            (case has_code_1004 msg of
               Inl e \<Rightarrow> ([], None)
             | Inr False \<Rightarrow> ([], None)
             | Inr True \<Rightarrow>
                 (let jan1_iso = force_jan1 birth_iso in
                  case call 1 jan1_iso of
                    Inl e \<Rightarrow> ([jan1_iso], None)
                  | Inr resp2 \<Rightarrow>
                      (case ebind (raise_for_status resp2) (\<lambda>_. payload resp2) of
                         Inl e \<Rightarrow> ([jan1_iso], None)
                       | Inr v \<Rightarrow> ([jan1_iso], Some (v, True)))))
          else ([], None))"

definition sandbox_retry :: "(response \<Rightarrow> error + 'a) \<Rightarrow> error + string
    \<Rightarrow> (nat \<Rightarrow> string \<Rightarrow> error + response) \<Rightarrow> string
    \<Rightarrow> string list \<times> (error + 'a \<times> bool)" where
  "sandbox_retry payload token call birth_iso =
     (case token of
        Inl e \<Rightarrow> ([], Inl e)
      | Inr _ \<Rightarrow>
          (case call 0 birth_iso of
             Inl e \<Rightarrow> ([birth_iso], Inl e)
           | Inr resp \<Rightarrow>
               if status_code resp < 400
               then ([birth_iso], ebind (payload resp) (\<lambda>v. Inr (v, False)))
               else
                 (case sandbox_attempt payload call birth_iso resp of
                    (sent, Some r) \<Rightarrow> (birth_iso # sent, Inr r)
                  | (sent, None) \<Rightarrow>
                      (birth_iso # sent,
                       Inl (HTTPError (status_code resp) (reason resp)
                              (case resp_json_of resp of
                                 Inr detail \<Rightarrow> Inl detail
                               | Inl _ \<Rightarrow> Inr (body_text resp)))))))"

definition get_chart_svg :: "error + string \<Rightarrow> (nat \<Rightarrow> string \<Rightarrow> error + response) \<Rightarrow> string
    \<Rightarrow> string list \<times> (error + string \<times> bool)" where
  "get_chart_svg = sandbox_retry resp_text_of"

definition get_divisional_planet_position :: "error + string \<Rightarrow> (nat \<Rightarrow> string \<Rightarrow> error + response)
    \<Rightarrow> string \<Rightarrow> string list \<times> (error + json \<times> bool)" where
  "get_divisional_planet_position = sandbox_retry resp_json_of"

definition get_kundli :: "error + string \<Rightarrow> (nat \<Rightarrow> string \<Rightarrow> error + response) \<Rightarrow> string
    \<Rightarrow> string list \<times> (error + json \<times> bool)" where
  "get_kundli = sandbox_retry resp_json_of"

definition get_dasha_periods :: "error + string \<Rightarrow> (nat \<Rightarrow> string \<Rightarrow> error + response) \<Rightarrow> string
    \<Rightarrow> string list \<times> (error + json \<times> bool)" where
  "get_dasha_periods = sandbox_retry resp_json_of"



text \<open>Responses for the scenarios: the body \<^verbatim>\<open>{"errors":[{"code":"1004"}]}\<close> under a
  given status, a successful response, and a server that answers the first request with
  the former under status 400 and the second with the latter.\<close>

definition body_1004 :: json where
  "body_1004 = JObj [(''errors'', JList [JObj [(''code'', JStr ''1004'')]])]"

definition resp_1004 :: "int \<Rightarrow> response" where
  "resp_1004 st = \<lparr> status_code = st, reason = ''Error'', body_text = [],
      body_json = Some body_1004 \<rparr>"

definition resp_ok :: response where
  "resp_ok = \<lparr> status_code = 200, reason = ''OK'', body_text = ''<svg/>'',
      body_json = Some (JObj [(''data'', JObj [])]) \<rparr>"

definition sandbox_server :: "nat \<Rightarrow> string \<Rightarrow> error + response" where
  "sandbox_server n datetime_value = (if n = 0 then Inr (resp_1004 400) else Inr resp_ok)"

section \<open>Shapes of timestamps\<close>

text \<open>
  The shape \<^verbatim>\<open>YYYY-MM-DDTHH:MM:SS+HH:MM\<close> (or with \<^verbatim>\<open>-\<close> before the offset), said
  of a whole string: the exact pattern of the docstring.
\<close>

definition hms_shape :: "string \<Rightarrow> bool" where
  "hms_shape s = (case s of
       [h1, h2, c1, n1, n2, c2, s1, s2] \<Rightarrow>
         is_digit h1 \<and> is_digit h2 \<and> c1 = CHR '':'' \<and> is_digit n1 \<and> is_digit n2
         \<and> c2 = CHR '':'' \<and> is_digit s1 \<and> is_digit s2
     | _ \<Rightarrow> False)"

definition off_shape :: "string \<Rightarrow> bool" where
  "off_shape s = (case s of
       [sg, o1, o2, c3, o3, o4] \<Rightarrow>
         (sg = CHR ''+'' \<or> sg = CHR ''-'') \<and> is_digit o1 \<and> is_digit o2 \<and> c3 = CHR '':''
         \<and> is_digit o3 \<and> is_digit o4
     | _ \<Rightarrow> False)"

definition digits :: "nat \<Rightarrow> string \<Rightarrow> bool" where
  "digits n s = (length s = n \<and> list_all is_digit s)"

definition iso_shape :: "string \<Rightarrow> bool" where
  "iso_shape s =
     (length s = 25
      \<and> digits 4 (take 4 s) \<and> s ! 4 = CHR ''-''
      \<and> digits 2 (take 2 (drop 5 s)) \<and> s ! 7 = CHR ''-''
      \<and> digits 2 (take 2 (drop 8 s)) \<and> s ! 10 = CHR ''T''
      \<and> hms_shape (take 8 (drop 11 s))
      \<and> off_shape (drop 19 s))"

text \<open>The same shape followed by one newline, which the pattern's \<^verbatim>\<open>$\<close> lets through.\<close>

definition iso_shape_nl :: "string \<Rightarrow> bool" where
  "iso_shape_nl s = (length s = 26 \<and> iso_shape (take 25 s) \<and> s ! 25 = newline)"


section \<open>Periods that cover an instant\<close>

text \<open>
  The reading of a period that the specification gives: its start is the value of the
  first of the keys \<^verbatim>\<open>start\<close>, \<^verbatim>\<open>start_time\<close>, \<^verbatim>\<open>from\<close> that is present with a value
  other than \<^verbatim>\<open>None\<close>, its end likewise of \<^verbatim>\<open>end\<close>, \<^verbatim>\<open>end_time\<close>, \<^verbatim>\<open>to\<close>; the
  period covers \<open>t\<close> when both parse and \<open>start \<le> t \<le> end\<close>.
\<close>

fun first_present :: "(string \<times> json) list \<Rightarrow> string list \<Rightarrow> json" where
  "first_present kvs [] = JNull"
| "first_present kvs (k # ks) =
     (case map_of kvs k of
        Some v \<Rightarrow> if v \<noteq> JNull then v else first_present kvs ks
      | None \<Rightarrow> first_present kvs ks)"

definition covers :: "(json \<Rightarrow> error + ('ts::linorder) option) \<Rightarrow> 'ts \<Rightarrow> json \<Rightarrow> bool" where
  "covers to_datetime t p =
     (case p of
        JObj kvs \<Rightarrow>
          (case (parse_dt to_datetime (first_present kvs [''start'', ''start_time'', ''from'']),
                 parse_dt to_datetime (first_present kvs [''end'', ''end_time'', ''to''])) of
             (Some s, Some e) \<Rightarrow> s \<le> t \<and> t \<le> e
           | _ \<Rightarrow> False)
      | _ \<Rightarrow> False)"

text \<open>A period that is a dict in which each of the six keys is absent, or holds
  \<^verbatim>\<open>None\<close>, or holds a value that counts as true (so: no empty string, no zero).\<close>

definition plain_period :: "json \<Rightarrow> bool" where
  "plain_period p =
     (case p of
        JObj kvs \<Rightarrow>
          list_all (\<lambda>k. case map_of kvs k of Some v \<Rightarrow> v = JNull \<or> truthy v | None \<Rightarrow> True)
            [''start'', ''start_time'', ''from'', ''end'', ''end_time'', ''to'']
      | _ \<Rightarrow> False)"

text \<open>The dasha tree of the scenario: one mahadasha of Ketu with one antardasha of
  Venus, which has no pratyantardasha.\<close>

definition venus_period :: json where
  "venus_period =
     JObj [(''lord'', JStr ''Venus''), (''start'', JStr ''2001-01-01''),
           (''end'', JStr ''2002-01-01'')]"

definition ketu_period :: json where
  "ketu_period =
     JObj [(''lord'', JStr ''Ketu''), (''start'', JStr ''2000-01-01''),
           (''end'', JStr ''2007-01-01''), (''antardasha'', JList [venus_period])]"


text \<open>A period whose start does not parse, and one whose \<^verbatim>\<open>start\<close> is the empty string
  and whose \<^verbatim>\<open>start_time\<close> is a date.\<close>

definition garbled_period :: json where
  "garbled_period = JObj [(''start'', JStr ''soon''), (''end'', JStr ''2007-01-01'')]"

definition empty_start_period :: json where
  "empty_start_period =
     JObj [(''start'', JStr []), (''start_time'', JStr ''2000-01-01''),
           (''end'', JStr ''2007-01-01'')]"


section \<open>Order of the rows\<close>

text \<open>
  A house number that is a number below the sentinel 99 of the sort key; the number by
  which a row is ranked (99 for a missing house number); and the order in which no row
  with a known house number comes after a row whose house number is missing.
\<close>

definition known_below_99 :: "json \<Rightarrow> bool" where
  "known_below_99 v = (case num_of v of Some x \<Rightarrow> x < 99 | None \<Rightarrow> False)"

definition house_rank :: "json \<Rightarrow> real" where
  "house_rank house_no = (case num_of (house_key house_no) of Some x \<Rightarrow> x | None \<Rightarrow> 0)"

fun missing_last :: "('r \<Rightarrow> json) \<Rightarrow> 'r list \<Rightarrow> bool" where
  "missing_last house_no [] = True"
| "missing_last house_no (r # rs) =
     ((house_no r = JNull \<longrightarrow> list_all (\<lambda>q. house_no q = JNull) rs)
      \<and> missing_last house_no rs)"

text \<open>Rows for the scenarios: a house row with a number only, a planet row with a name
  and a house number only.\<close>

definition house_numbered :: "json \<Rightarrow> kh_row" where
  "house_numbered n =
     \<lparr>kh_house_no = n, kh_house = JNull, kh_rasi = JNull, kh_degree = JNull\<rparr>"

definition planet_in_house :: "string \<Rightarrow> json \<Rightarrow> kp_row" where
  "planet_in_house name n =
     \<lparr>kp_house_no = n, kp_planet = JStr name, kp_planet_vedic = JStr [],
      kp_rasi = JNull, kp_rasi_lord = JNull, kp_nakshatra = JNull,
      kp_nakshatra_lord = JNull, kp_pada = JNull, kp_degree = JNull,
      kp_retro = Some False\<rparr>"

definition div_planet_in_house :: "string \<Rightarrow> json \<Rightarrow> div_row" where
  "div_planet_in_house name n =
     \<lparr>dr_house_no = n, dr_house = JNull, dr_rasi = JNull, dr_rasi_lord = JNull,
      dr_planet = JStr name, dr_planet_vedic = JStr [], dr_nakshatra = JNull,
      dr_nakshatra_lord = JNull, dr_pada = JNull, dr_degree = JNull,
      dr_retro = Some False\<rparr>"




text \<open>An instance of the parameter \<open>rp\<close> for the scenarios, none of which has a planet
  name that is a float, a list or a dict.\<close>

definition no_repr :: "json \<Rightarrow> string" where
  "no_repr v = []"

definition house_100 :: json where
  "house_100 =
     JObj [(''planets'', JList [
        JObj [(''name'', JStr ''Sun''), (''house'', JObj [(''number'', JInt 100)])],
        JObj [(''name'', JStr ''Moon'')]])]"


section \<open>Well-formed responses\<close>

text \<open>
  The value under a key of a dict (\<^verbatim>\<open>None\<close> when the key is absent); a value that is
  \<^verbatim>\<open>None\<close> or a dict; a record whose \<^verbatim>\<open>lord\<close>, when the record is a dict, is
  \<^verbatim>\<open>None\<close> or a dict. A list element is well formed when it is a dict and every nested
  record that the flattening function reads of it is \<^verbatim>\<open>None\<close>, absent or a dict.
\<close>

definition field :: "(string \<times> json) list \<Rightarrow> string \<Rightarrow> json" where
  "field kvs k = (case map_of kvs k of Some v \<Rightarrow> v | None \<Rightarrow> JNull)"















section \<open>Properties of the sandbox-date substitution\<close>

lemma length_25_cases:
  assumes "length (s::'a list) = 25"
  obtains c0 c1 c2 c3 c4 c5 c6 c7 c8 c9 c10 c11 c12 c13 c14 c15 c16 c17 c18 c19 c20 c21 c22 c23 c24
  where "s = [c0, c1, c2, c3, c4, c5, c6, c7, c8, c9, c10, c11, c12, c13, c14, c15, c16, c17,
              c18, c19, c20, c21, c22, c23, c24]"
proof -
  have "length s = Suc (Suc (Suc (Suc (Suc (Suc (Suc (Suc (Suc (Suc (Suc (Suc (Suc (Suc (Suc
          (Suc (Suc (Suc (Suc (Suc (Suc (Suc (Suc (Suc (Suc 0))))))))))))))))))))))))"
    using assms by simp
  then show thesis
    by (auto simp: length_Suc_conv intro: that)
qed

lemma force_jan1_on_shape:
  assumes "iso_shape s"
  shows "force_jan1 s = take 4 s @ ''-01-01'' @ drop 10 s"
proof -
  from assms have "length s = 25" by (simp add: iso_shape_def)
  then obtain c0 c1 c2 c3 c4 c5 c6 c7 c8 c9 c10 c11 c12 c13 c14 c15 c16 c17 c18 c19 c20 c21 c22 c23 c24
    where s: "s = [c0, c1, c2, c3, c4, c5, c6, c7, c8, c9, c10, c11, c12, c13, c14, c15, c16,
                   c17, c18, c19, c20, c21, c22, c23, c24]"
    by (rule length_25_cases)
  from assms show ?thesis
    unfolding s
    by (simp add: iso_shape_def force_jan1_def jan1_groups_def digits_def hms_shape_def
        off_shape_def)
qed

lemma jan1_groups_long:
  assumes "jan1_groups s = Some g"
  obtains c0 c1 c2 c3 c4 c5 c6 c7 c8 c9 c10 c11 c12 c13 c14 c15 c16 c17 c18 c19 c20 c21 c22 c23 c24 rest
  where "s = c0 # c1 # c2 # c3 # c4 # c5 # c6 # c7 # c8 # c9 # c10 # c11 # c12 # c13 # c14 # c15
             # c16 # c17 # c18 # c19 # c20 # c21 # c22 # c23 # c24 # rest"
  using assms unfolding jan1_groups_def
  by (simp split: list.splits)

lemma jan1_groups_shape:
  assumes "jan1_groups s = Some g"
  shows "iso_shape s \<or> iso_shape_nl s"
proof -
  from assms obtain c0 c1 c2 c3 c4 c5 c6 c7 c8 c9 c10 c11 c12 c13 c14 c15 c16 c17 c18 c19 c20 c21 c22 c23 c24 rest
    where s: "s = c0 # c1 # c2 # c3 # c4 # c5 # c6 # c7 # c8 # c9 # c10 # c11 # c12 # c13 # c14
                  # c15 # c16 # c17 # c18 # c19 # c20 # c21 # c22 # c23 # c24 # rest"
    by (rule jan1_groups_long)
  from assms have r: "rest = [] \<or> rest = [newline]"
    unfolding s jan1_groups_def by (simp split: if_splits)
  from assms r show ?thesis
    unfolding s jan1_groups_def
    by (auto simp: iso_shape_def iso_shape_nl_def digits_def hms_shape_def off_shape_def
        split: if_splits)
qed

lemma force_jan1_unmatched:
  assumes "\<not> iso_shape s" "\<not> iso_shape_nl s"
  shows "force_jan1 s = s"
  using assms jan1_groups_shape[of s]
  by (cases "jan1_groups s") (auto simp: force_jan1_def)

text \<open>
  Claim C4. On every timestamp of the shape \<^verbatim>\<open>YYYY-MM-DDTHH:MM:SS\<close> followed by an
  offset \<^verbatim>\<open>+HH:MM\<close> or \<^verbatim>\<open>-HH:MM\<close>, \<^verbatim>\<open>_force_jan1\<close> keeps the first four characters
  (the year) and everything from the \<^verbatim>\<open>T\<close> on (time of day and offset) as they are and
  writes \<^verbatim>\<open>-01-01\<close> in the place of month and day; and it maps
  \<^verbatim>\<open>2001-12-29T06:06:00+05:30\<close> to \<^verbatim>\<open>2001-01-01T06:06:00+05:30\<close>.
\<close>

theorem force_jan1_preserves:
  "(iso_shape s \<longrightarrow> force_jan1 s = take 4 s @ ''-01-01'' @ drop 10 s)
   \<and> force_jan1 ''2001-12-29T06:06:00+05:30'' = ''2001-01-01T06:06:00+05:30''"
proof
  show "iso_shape s \<longrightarrow> force_jan1 s = take 4 s @ ''-01-01'' @ drop 10 s"
    by (simp add: force_jan1_on_shape)
  show "force_jan1 ''2001-12-29T06:06:00+05:30'' = ''2001-01-01T06:06:00+05:30''"
    by (simp add: force_jan1_def jan1_groups_def is_digit_def)
qed

theorem force_jan1_preserves_witness:
  "iso_shape ''1987-07-15T23:59:58-08:00''
   \<and> force_jan1 ''1987-07-15T23:59:58-08:00'' = ''1987-01-01T23:59:58-08:00''"
proof -
  have h: "iso_shape ''1987-07-15T23:59:58-08:00''"
    by (simp add: iso_shape_def digits_def hms_shape_def off_shape_def is_digit_def)
  from force_jan1_preserves[of "''1987-07-15T23:59:58-08:00''"] h
  have "force_jan1 ''1987-07-15T23:59:58-08:00''
        = take 4 ''1987-07-15T23:59:58-08:00'' @ ''-01-01'' @ drop 10 ''1987-07-15T23:59:58-08:00''"
    by blast
  with h show ?thesis by simp
qed

section \<open>Properties of the endpoint operations\<close>

lemma sandbox_attempt_sent:
  "fst (sandbox_attempt payload call s resp) = []
   \<or> fst (sandbox_attempt payload call s resp) = [force_jan1 s]"
  by (auto simp: sandbox_attempt_def Let_def split: sum.splits bool.splits)

lemma sandbox_retry_sent:
  "fst (sandbox_retry payload token call s) \<in> {[], [s], [s, force_jan1 s]}"
proof (cases token)
  case (Inl e)
  then show ?thesis by (simp add: sandbox_retry_def)
next
  case tok: (Inr t)
  show ?thesis
  proof (cases "call 0 s")
    case (Inl e)
    with tok show ?thesis by (simp add: sandbox_retry_def)
  next
    case (Inr resp)
    obtain sent r where a: "sandbox_attempt payload call s resp = (sent, r)"
      by (cases "sandbox_attempt payload call s resp")
    with sandbox_attempt_sent[of payload call s resp]
    have "sent = [] \<or> sent = [force_jan1 s]" by simp
    with tok Inr a show ?thesis
      by (cases r) (auto simp: sandbox_retry_def)
  qed
qed

lemma sandbox_retry_sent_same:
  assumes "force_jan1 s = s"
  shows "set (fst (sandbox_retry payload token call s)) \<subseteq> {s}"
  using sandbox_retry_sent[of payload token call s] assms by auto

text \<open>
  Claim C10, as amended. A string that has neither the exact shape
  \<^verbatim>\<open>YYYY-MM-DDTHH:MM:SS\<close> with offset \<^verbatim>\<open>+HH:MM\<close> or \<^verbatim>\<open>-HH:MM\<close>, nor that shape followed
  by one newline, is returned unchanged by \<^verbatim>\<open>_force_jan1\<close>; so every request that an
  endpoint operation sends for it, the fallback retry included, carries the original
  timestamp.
\<close>

theorem force_jan1_unmatched_unchanged:
  "\<not> iso_shape s \<and> \<not> iso_shape_nl s \<longrightarrow>
     force_jan1 s = s
     \<and> set (fst (get_chart_svg token call s)) \<subseteq> {s}
     \<and> set (fst (get_divisional_planet_position token call s)) \<subseteq> {s}
     \<and> set (fst (get_kundli token call s)) \<subseteq> {s}
     \<and> set (fst (get_dasha_periods token call s)) \<subseteq> {s}"
proof
  assume a: "\<not> iso_shape s \<and> \<not> iso_shape_nl s"
  then have u: "force_jan1 s = s" by (simp add: force_jan1_unmatched)
  show "force_jan1 s = s
     \<and> set (fst (get_chart_svg token call s)) \<subseteq> {s}
     \<and> set (fst (get_divisional_planet_position token call s)) \<subseteq> {s}
     \<and> set (fst (get_kundli token call s)) \<subseteq> {s}
     \<and> set (fst (get_dasha_periods token call s)) \<subseteq> {s}"
    unfolding get_chart_svg_def get_divisional_planet_position_def get_kundli_def
      get_dasha_periods_def
    by (intro conjI) (rule u sandbox_retry_sent_same[OF u])+
qed

text \<open>A timestamp that ends in \<^verbatim>\<open>Z\<close>, sent to a server that answers with the sandbox
  signal and then accepts: the retry carries the same timestamp.\<close>

theorem force_jan1_unmatched_unchanged_witness:
  "\<not> iso_shape ''2001-12-29T06:06:00Z'' \<and> \<not> iso_shape_nl ''2001-12-29T06:06:00Z''
   \<and> force_jan1 ''2001-12-29T06:06:00Z'' = ''2001-12-29T06:06:00Z''
   \<and> fst (get_kundli (Inr ''token'') sandbox_server ''2001-12-29T06:06:00Z'')
       = [''2001-12-29T06:06:00Z'', ''2001-12-29T06:06:00Z'']"
proof -
  have h: "\<not> iso_shape ''2001-12-29T06:06:00Z'' \<and> \<not> iso_shape_nl ''2001-12-29T06:06:00Z''"
    by (simp add: iso_shape_def iso_shape_nl_def)
  from force_jan1_unmatched_unchanged[of "''2001-12-29T06:06:00Z''"] h
  have u: "force_jan1 ''2001-12-29T06:06:00Z'' = ''2001-12-29T06:06:00Z''" by blast
  have "fst (get_kundli (Inr ''token'') sandbox_server ''2001-12-29T06:06:00Z'')
       = [''2001-12-29T06:06:00Z'', force_jan1 ''2001-12-29T06:06:00Z'']"
    by (simp add: get_kundli_def sandbox_retry_def sandbox_attempt_def sandbox_server_def
        resp_1004_def body_1004_def resp_ok_def resp_json_of_def is_dict_def has_code_1004_def
        py_get_default_def py_get_def ebind_def py_iter_def raise_for_status_def Let_def)
  with h u show ?thesis by simp
qed

text \<open>
  Claim C10 as stated fails: a timestamp of the exact shape followed by a newline does not
  match the shape exactly, and is changed: month and day are rewritten and the newline is
  dropped.
\<close>

theorem force_jan1_trailing_newline:
  "\<not> iso_shape (''2001-12-29T06:06:00+05:30'' @ [newline])
   \<and> force_jan1 (''2001-12-29T06:06:00+05:30'' @ [newline]) = ''2001-01-01T06:06:00+05:30''
   \<and> force_jan1 (''2001-12-29T06:06:00+05:30'' @ [newline])
       \<noteq> ''2001-12-29T06:06:00+05:30'' @ [newline]"
  by (simp add: iso_shape_def force_jan1_def jan1_groups_def is_digit_def)

lemma py_eq_str: "py_eq c (JStr s) = (c = JStr s)"
  by (cases c) auto









section \<open>Properties of the dasha chain resolver\<close>

lemmas py_defs = ebind_def py_get_def py_get_default_def py_or_def or_else_def py_iter_def
  get_or_get_def extract_degree_def resolve_retro_def is_dict_def is_list_def

lemma get_or3_first_present:
  assumes "\<forall>k\<in>{k1, k2, k3}. case map_of kvs k of Some v \<Rightarrow> v = JNull \<or> truthy v | None \<Rightarrow> True"
  shows "get_or3 (JObj kvs) k1 k2 k3 = Inr (first_present kvs [k1, k2, k3])"
  using assms
  by (auto simp: get_or3_def ebind_def py_get_def py_get_default_def or_else_def
      split: option.splits)

lemma scan_periods_find:
  fixes t :: "'ts::linorder"
  assumes "list_all plain_period ps"
  shows "scan_periods td ps t = Inr (List.find (covers td t) ps)"
  using assms
proof (induction ps)
  case Nil
  then show ?case by simp
next
  case (Cons p ps)
  from Cons.prems obtain kvs where p: "p = JObj kvs"
    by (cases p) (auto simp: plain_period_def)
  from Cons.prems have pl: "plain_period (JObj kvs)" by (simp add: p)
  have s: "get_or3 (JObj kvs) ''start'' ''start_time'' ''from''
           = Inr (first_present kvs [''start'', ''start_time'', ''from''])"
    by (rule get_or3_first_present) (use pl in \<open>simp add: plain_period_def\<close>)
  have e: "get_or3 (JObj kvs) ''end'' ''end_time'' ''to''
           = Inr (first_present kvs [''end'', ''end_time'', ''to''])"
    by (rule get_or3_first_present) (use pl in \<open>simp add: plain_period_def\<close>)
  have IH: "scan_periods td ps t = Inr (List.find (covers td t) ps)"
    using Cons by simp
  let ?s = "parse_dt td (first_present kvs [''start'', ''start_time'', ''from''])"
  let ?e = "parse_dt td (first_present kvs [''end'', ''end_time'', ''to''])"
  have c: "covers td t (JObj kvs)
           = (?s \<noteq> None \<and> ?e \<noteq> None \<and> the ?s \<le> t \<and> t \<le> the ?e)"
    by (cases ?s; cases ?e) (simp_all add: covers_def)
  have "scan_periods td (JObj kvs # ps) t
        = (if covers td t (JObj kvs) then Inr (Some (JObj kvs)) else scan_periods td ps t)"
    unfolding scan_periods.simps s e c by (simp add: ebind_def Let_def)
  then show ?case by (simp add: p IH)
qed

text \<open>
  Claim C1, as amended. \<^verbatim>\<open>_find_period_covering(periods, t)\<close> returns \<^verbatim>\<open>None\<close> when
  \<open>periods\<close> is not a list or is the empty list. On a list whose elements are dicts (with
  no falsy value other than \<^verbatim>\<open>None\<close> under the six timestamp keys) it returns the first
  element, in list order, that covers \<open>t\<close>, and \<^verbatim>\<open>None\<close> when no element does; an element
  whose start or end does not parse covers nothing and is passed over. Nothing is assumed
  about the order or the overlap of the periods.
\<close>

theorem find_period_covering_first:
  fixes t :: "'ts::linorder"
  shows "(\<not> is_list periods \<longrightarrow> find_period_covering td periods t = Inr None)
   \<and> find_period_covering td (JList []) t = Inr None
   \<and> (list_all plain_period ps \<longrightarrow>
        find_period_covering td (JList ps) t = Inr (List.find (covers td t) ps))"
proof (intro conjI impI)
  assume "\<not> is_list periods"
  then show "find_period_covering td periods t = Inr None"
    by (cases periods) (simp_all add: find_period_covering_def is_list_def)
next
  show "find_period_covering td (JList []) t = Inr None"
    by (simp add: find_period_covering_def)
next
  assume "list_all plain_period ps"
  then show "find_period_covering td (JList ps) t = Inr (List.find (covers td t) ps)"
    by (simp add: find_period_covering_def scan_periods_find)
qed

text \<open>A list that starts with a period whose start does not parse, followed by two
  overlapping periods that cover the instant, the later-starting one first: the result is
  the first of the two in list order. A string is not a list.\<close>

theorem find_period_covering_first_witness:
  "list_all plain_period [garbled_period, venus_period, ketu_period]
   \<and> find_period_covering to_datetime_ymd
        (JList [garbled_period, venus_period, ketu_period]) (2001, 6, 1)
       = Inr (Some venus_period)
   \<and> \<not> is_list (JStr ''periods'')
   \<and> find_period_covering to_datetime_ymd (JStr ''periods'') (2001, 6, 1) = Inr None"
proof -
  have h: "list_all plain_period [garbled_period, venus_period, ketu_period]"
    by code_simp
  have f: "List.find (covers to_datetime_ymd (2001, 6, 1))
             [garbled_period, venus_period, ketu_period] = Some venus_period"
    by code_simp
  have n: "\<not> is_list (JStr ''periods'')" by (simp add: is_list_def)
  from find_period_covering_first[where td = to_datetime_ymd
      and ps = "[garbled_period, venus_period, ketu_period]" and t = "(2001, 6, 1)"
      and periods = "JStr ''periods''"] h n
  have "find_period_covering to_datetime_ymd
          (JList [garbled_period, venus_period, ketu_period]) (2001, 6, 1)
        = Inr (List.find (covers to_datetime_ymd (2001, 6, 1))
                 [garbled_period, venus_period, ketu_period])"
    and "find_period_covering to_datetime_ymd (JStr ''periods'') (2001, 6, 1) = Inr None"
    by blast+
  with h f n show ?thesis by (simp only:) simp
qed

text \<open>
  Claim C1 as stated fails. A list with an element that is not a dict (here \<^verbatim>\<open>[None]\<close>)
  holds no period that covers the instant, and the call raises instead of returning
  \<^verbatim>\<open>None\<close>. And a period whose \<^verbatim>\<open>start\<close> is present as the empty string is read from
  \<^verbatim>\<open>start_time\<close> instead, and returned, though its first present start does not parse.
\<close>

theorem find_period_covering_raises:
  "find_period_covering to_datetime_ymd (JList [JNull]) (2001, 6, 1) = Inl AttributeError
   \<and> find_period_covering to_datetime_ymd (JList [empty_start_period]) (2001, 6, 1)
       = Inr (Some empty_start_period)
   \<and> \<not> covers to_datetime_ymd (2001, 6, 1) empty_start_period"
  by code_simp






section \<open>Properties of the response normalizer\<close>

lemma sort_by_key_single: "sort_by_key key lt [r] = ([r], None)"
  by (simp add: sort_by_key_def list_sort_def)


lemma resolve_retro_known: "resolve_retro p \<noteq> Inr None"
  by (auto simp: resolve_retro_def ebind_def py_get_def py_get_default_def
      split: json.splits sum.splits option.splits if_splits)

text \<open>
  Claim C2 does not hold of the code. A planet element with none of the keys \<^verbatim>\<open>retro\<close>,
  \<^verbatim>\<open>is_retro\<close>, \<^verbatim>\<open>motion\<close> gets the retrograde field \<^verbatim>\<open>False\<close>, in both flattening
  functions: the third step always yields a \<^verbatim>\<open>bool\<close>, so that the branch
  \<^verbatim>\<open>else None\<close> of the row is never taken, and no element has an unknown flag. The
  order of priority is as claimed: \<^verbatim>\<open>retro\<close>, then \<^verbatim>\<open>is_retro\<close>, then the comparison of
  \<^verbatim>\<open>motion\<close> with \<^verbatim>\<open>"retrograde"\<close>.
\<close>

theorem retro_absent_is_false:
  "resolve_retro (JObj []) = Inr (Some False)
   \<and> (\<forall>p. resolve_retro p \<noteq> Inr None)
   \<and> resolve_retro (JObj [(''retro'', JBool b), (''is_retro'', JBool c), (''motion'', m)])
     = Inr (Some b)
   \<and> resolve_retro (JObj [(''is_retro'', JBool c), (''motion'', m)]) = Inr (Some c)
   \<and> resolve_retro (JObj [(''motion'', m)]) = Inr (Some (m = JStr ''retrograde''))
   \<and> flatten_kundli_planets rp (JObj [(''planets'', JList [JObj []])])
     = Inr [\<lparr>kp_house_no = JNull, kp_planet = JNull, kp_planet_vedic = JStr [],
              kp_rasi = JNull, kp_rasi_lord = JNull, kp_nakshatra = JNull,
              kp_nakshatra_lord = JNull, kp_pada = JNull, kp_degree = JNull,
              kp_retro = Some False\<rparr>]
   \<and> flatten_divisional_positions rp
       (JObj [(''positions'', JList [JObj [(''planet_positions'', JList [JObj []])]])])
     = Inr [\<lparr>dr_house_no = JNull, dr_house = JNull, dr_rasi = JNull, dr_rasi_lord = JNull,
              dr_planet = JNull, dr_planet_vedic = JStr [], dr_nakshatra = JNull,
              dr_nakshatra_lord = JNull, dr_pada = JNull, dr_degree = JNull,
              dr_retro = Some False\<rparr>]"
proof (intro conjI allI)
  show "resolve_retro (JObj []) = Inr (Some False)" by (simp add: py_defs)
  show "resolve_retro p \<noteq> Inr None" for p by (rule resolve_retro_known)
  show "resolve_retro (JObj [(''retro'', JBool b), (''is_retro'', JBool c), (''motion'', m)])
     = Inr (Some b)"
    by (simp add: py_defs)
  show "resolve_retro (JObj [(''is_retro'', JBool c), (''motion'', m)]) = Inr (Some c)"
    by (simp add: py_defs)
  show "resolve_retro (JObj [(''motion'', m)]) = Inr (Some (m = JStr ''retrograde''))"
    by (simp add: py_defs py_eq_str)
  show "flatten_kundli_planets rp (JObj [(''planets'', JList [JObj []])])
     = Inr [\<lparr>kp_house_no = JNull, kp_planet = JNull, kp_planet_vedic = JStr [],
              kp_rasi = JNull, kp_rasi_lord = JNull, kp_nakshatra = JNull,
              kp_nakshatra_lord = JNull, kp_pada = JNull, kp_degree = JNull,
              kp_retro = Some False\<rparr>]"
    by (simp add: flatten_kundli_planets_def kundli_planet_row_def sort_kp_rows_def
        sort_by_key_single py_defs)
  show "flatten_divisional_positions rp
       (JObj [(''positions'', JList [JObj [(''planet_positions'', JList [JObj []])]])])
     = Inr [\<lparr>dr_house_no = JNull, dr_house = JNull, dr_rasi = JNull, dr_rasi_lord = JNull,
              dr_planet = JNull, dr_planet_vedic = JStr [], dr_nakshatra = JNull,
              dr_nakshatra_lord = JNull, dr_pada = JNull, dr_degree = JNull,
              dr_retro = Some False\<rparr>]"
    by (simp add: flatten_divisional_positions_def div_house_rows_def div_planet_row_def
        sort_div_rows_def sort_by_key_single py_defs)
qed

text \<open>
  Claim C6 does not hold of the code. The alternatives of a field are chained with
  \<^verbatim>\<open>or\<close>, which passes over every falsy value: a degree of 0 under \<^verbatim>\<open>degree\<close> falls
  through to \<^verbatim>\<open>longitude\<close>, and is lost when no later alternative has a value.
\<close>

theorem degree_zero_falls_through:
  "extract_degree ''position'' (JObj [(''degree'', JInt 0), (''longitude'', JInt 123)])
     = Inr (JInt 123)
   \<and> extract_degree ''position'' (JObj [(''degree'', JInt 0)]) = Inr JNull
   \<and> flatten_kundli_planets rp
       (JObj [(''planets'', JList [JObj [(''name'', JStr ''Sun''), (''degree'', JInt 0),
                                         (''longitude'', JInt 123)]])])
     = Inr [\<lparr>kp_house_no = JNull, kp_planet = JStr ''Sun'', kp_planet_vedic = JStr [],
              kp_rasi = JNull, kp_rasi_lord = JNull, kp_nakshatra = JNull,
              kp_nakshatra_lord = JNull, kp_pada = JNull, kp_degree = JInt 123,
              kp_retro = Some False\<rparr>]
   \<and> flatten_divisional_positions rp
       (JObj [(''positions'', JList [JObj [(''planet_positions'',
            JList [JObj [(''degree'', JInt 0), (''longitude'', JInt 123)]])]])])
     = Inr [\<lparr>dr_house_no = JNull, dr_house = JNull, dr_rasi = JNull, dr_rasi_lord = JNull,
              dr_planet = JNull, dr_planet_vedic = JStr [], dr_nakshatra = JNull,
              dr_nakshatra_lord = JNull, dr_pada = JNull, dr_degree = JInt 123,
              dr_retro = Some False\<rparr>]"
  by (simp add: flatten_kundli_planets_def kundli_planet_row_def sort_kp_rows_def
        flatten_divisional_positions_def div_house_rows_def div_planet_row_def
        sort_div_rows_def sort_by_key_single py_defs)


section \<open>Properties of the sort\<close>

text \<open>Whatever the comparisons do, the sort leaves a permutation of the list.\<close>


lemma binarysort_mset: "mset (fst (binarysort lt pre rest)) = mset pre + mset rest"
proof (induction rest arbitrary: pre)
  case Nil
  then show ?case by simp
next
  case (Cons pivot rest)
  show ?case
  proof (cases "bisect lt (fst pivot) (map fst pre) 0 (length pre)")
    case (Inl e)
    then show ?thesis by simp
  next
    case (Inr l)
    have "mset (take l pre @ pivot # drop l pre) = mset pre + {#pivot#}"
      by (metis add_mset_add_single append_take_drop_id mset.simps(2) mset_append union_mset_add_mset_right)
    with Inr Cons.IH[of "take l pre @ pivot # drop l pre"] show ?thesis by simp
  qed
qed

lemma list_sort_mset: "mset (fst (list_sort lt items)) = mset items"
proof -
  have td: "mset (take n items) + mset (drop n items) = mset items" for n
    by (metis append_take_drop_id mset_append)
  show ?thesis
    unfolding list_sort_def
    by (auto simp: binarysort_mset td split: sum.splits)
qed

lemma sort_by_key_mset: "mset (fst (sort_by_key key lt rows)) = mset rows"
proof -
  obtain items err where ls: "list_sort lt (map (\<lambda>r. (key r, r)) rows) = (items, err)"
    by (cases "list_sort lt (map (\<lambda>r. (key r, r)) rows)")
  from list_sort_mset[of lt "map (\<lambda>r. (key r, r)) rows"] ls
  have "mset items = mset (map (\<lambda>r. (key r, r)) rows)" by simp
  then have "mset (map snd items) = mset (map snd (map (\<lambda>r. (key r, r)) rows))"
    by (metis mset_map)
  then show ?thesis by (simp add: sort_by_key_def ls comp_def)
qed



lemma bisect_sorted:
  fixes f :: "'k \<Rightarrow> 'o::linorder"
  assumes agree: "\<And>a. a \<in> set ks \<Longrightarrow> lt pivot a = Inr (f pivot < f a)"
    and srt: "sorted (map f ks)"
    and lr: "l \<le> r" "r \<le> length ks"
    and lo: "\<forall>i<l. f (ks ! i) \<le> f pivot"
    and hi: "\<forall>i. r \<le> i \<and> i < length ks \<longrightarrow> f pivot < f (ks ! i)"
  shows "\<exists>m. bisect lt pivot ks l r = Inr m \<and> m \<le> length ks
            \<and> (\<forall>i<m. f (ks ! i) \<le> f pivot)
            \<and> (\<forall>i. m \<le> i \<and> i < length ks \<longrightarrow> f pivot < f (ks ! i))"
  using assms
proof (induction lt pivot ks l r rule: bisect.induct)
  case (1 lt pivot ks l r)
  show ?case
  proof (cases "l < r")
    case False
    with "1.prems" have "l = r" by simp
    with "1.prems" False show ?thesis by (subst bisect.simps) auto
  next
    case True
    define p where "p = l + (r - l) div 2"
    from True have pl: "l \<le> p" and pr: "p < r" by (auto simp: p_def)
    with "1.prems" have plen: "p < length ks" by simp
    then have pmem: "ks ! p \<in> set ks" by simp
    have cmp: "lt pivot (ks ! p) = Inr (f pivot < f (ks ! p))"
      using "1.prems"(1)[OF pmem] .
    have mono: "i \<le> j \<Longrightarrow> j < length ks \<Longrightarrow> f (ks ! i) \<le> f (ks ! j)" for i j
      using "1.prems"(2) by (simp add: sorted_iff_nth_mono)
    show ?thesis
    proof (cases "f pivot < f (ks ! p)")
      case lt: True
      have hi': "\<forall>i. p \<le> i \<and> i < length ks \<longrightarrow> f pivot < f (ks ! i)"
      proof (intro allI impI)
        fix i assume "p \<le> i \<and> i < length ks"
        then have "f (ks ! p) \<le> f (ks ! i)" using mono by blast
        with lt show "f pivot < f (ks ! i)" by simp
      qed
      have "\<exists>m. bisect lt pivot ks l p = Inr m \<and> m \<le> length ks
            \<and> (\<forall>i<m. f (ks ! i) \<le> f pivot)
            \<and> (\<forall>i. m \<le> i \<and> i < length ks \<longrightarrow> f pivot < f (ks ! i))"
        using "1.IH"(1)[OF True p_def _ _ "1.prems"(1) "1.prems"(2) pl _ "1.prems"(5) hi', of "f pivot < f (ks ! p)"] cmp lt plen
        by simp
      moreover have "bisect lt pivot ks l r = bisect lt pivot ks l p"
        using True cmp lt by (subst bisect.simps) (simp add: p_def Let_def)
      ultimately show ?thesis by simp
    next
      case nlt: False
      have lo': "\<forall>i<Suc p. f (ks ! i) \<le> f pivot"
      proof (intro allI impI)
        fix i assume "i < Suc p"
        then have "f (ks ! i) \<le> f (ks ! p)" using mono plen by simp
        with nlt show "f (ks ! i) \<le> f pivot" by simp
      qed
      have "\<exists>m. bisect lt pivot ks (Suc p) r = Inr m \<and> m \<le> length ks
            \<and> (\<forall>i<m. f (ks ! i) \<le> f pivot)
            \<and> (\<forall>i. m \<le> i \<and> i < length ks \<longrightarrow> f pivot < f (ks ! i))"
        using "1.IH"(2)[OF True p_def _ _ "1.prems"(1) "1.prems"(2) _ "1.prems"(4) lo' "1.prems"(6), of "f pivot < f (ks ! p)"] cmp nlt pr
        by simp
      moreover have "bisect lt pivot ks l r = bisect lt pivot ks (Suc p) r"
        using True cmp nlt by (subst bisect.simps) (simp add: p_def Let_def)
      ultimately show ?thesis by simp
    qed
  qed
qed




lemma insert_sorted:
  fixes g :: "'a \<Rightarrow> 'o::linorder"
  assumes srt: "sorted (map g pre)" and m: "m \<le> length pre"
    and lo: "\<forall>i<m. g (pre ! i) \<le> g pivot"
    and hi: "\<forall>i. m \<le> i \<and> i < length pre \<longrightarrow> g pivot < g (pre ! i)"
  shows "sorted (map g (take m pre @ pivot # drop m pre))"
proof -
  have a: "\<forall>x\<in>set (take m pre). g x \<le> g pivot"
    using lo m by (auto simp: in_set_conv_nth)
  have b: "\<forall>y\<in>set (drop m pre). g pivot \<le> g y"
  proof
    fix y assume "y \<in> set (drop m pre)"
    then obtain i where "i < length pre - m" "y = pre ! (m + i)"
      by (auto simp: in_set_conv_nth)
    then show "g pivot \<le> g y" using hi by (simp add: less_imp_le)
  qed
  have c: "sorted (map g (take m pre))" "sorted (map g (drop m pre))"
    using srt by (simp_all add: sorted_wrt_take sorted_wrt_drop sorted_map)
  have d: "\<forall>x\<in>set (take m pre). \<forall>y\<in>set (drop m pre). g x \<le> g y"
    using a b by (meson order_trans)
  show ?thesis using a b c d by (auto simp: sorted_append)
qed

lemma binarysort_sorted:
  fixes f :: "'k \<Rightarrow> 'o::linorder"
  assumes agree: "\<And>a b. a \<in> fst ` (set pre \<union> set rest) \<Longrightarrow> b \<in> fst ` (set pre \<union> set rest)
                    \<Longrightarrow> lt a b = Inr (f a < f b)"
    and srt: "sorted (map (\<lambda>x. f (fst x)) pre)"
  shows "snd (binarysort lt pre rest) = None
         \<and> sorted (map (\<lambda>x. f (fst x)) (fst (binarysort lt pre rest)))"
  using assms
proof (induction rest arbitrary: pre)
  case Nil
  then show ?case by simp
next
  case (Cons pivot rest)
  have ag: "\<And>a. a \<in> set (map fst pre) \<Longrightarrow> lt (fst pivot) a = Inr (f (fst pivot) < f a)"
    using Cons.prems(1) by auto
  have s: "sorted (map f (map fst pre))" using Cons.prems(2) by (simp add: comp_def)
  have "\<exists>m. bisect lt (fst pivot) (map fst pre) 0 (length (map fst pre)) = Inr m
        \<and> m \<le> length (map fst pre)
        \<and> (\<forall>i<m. f (map fst pre ! i) \<le> f (fst pivot))
        \<and> (\<forall>i. m \<le> i \<and> i < length (map fst pre) \<longrightarrow> f (fst pivot) < f (map fst pre ! i))"
    by (rule bisect_sorted[where ks = "map fst pre" and lt = lt and pivot = "fst pivot" and f = f])
      (use ag s in auto)
  then obtain m where m: "bisect lt (fst pivot) (map fst pre) 0 (length pre) = Inr m"
      "m \<le> length pre"
      "\<forall>i<m. f (map fst pre ! i) \<le> f (fst pivot)"
      "\<forall>i. m \<le> i \<and> i < length pre \<longrightarrow> f (fst pivot) < f (map fst pre ! i)"
    by (auto simp del: bisect.simps)
  have lo: "\<forall>i<m. f (fst (pre ! i)) \<le> f (fst pivot)" using m(2,3) by auto
  have hi: "\<forall>i. m \<le> i \<and> i < length pre \<longrightarrow> f (fst pivot) < f (fst (pre ! i))"
    using m(4) by auto
  have srt': "sorted (map (\<lambda>x. f (fst x)) (take m pre @ pivot # drop m pre))"
    using insert_sorted[of "\<lambda>x. f (fst x)" pre m pivot, OF Cons.prems(2) m(2) lo hi] .
  have sub: "set (take m pre @ pivot # drop m pre) \<union> set rest = set pre \<union> set (pivot # rest)"
  proof -
    have "set (take m pre) \<union> set (drop m pre) = set pre"
      by (metis append_take_drop_id set_append)
    then show ?thesis by auto
  qed
  have "snd (binarysort lt (take m pre @ pivot # drop m pre) rest) = None
         \<and> sorted (map (\<lambda>x. f (fst x)) (fst (binarysort lt (take m pre @ pivot # drop m pre) rest)))"
    by (rule Cons.IH) (use Cons.prems(1) srt' in \<open>simp_all only: sub\<close>)
  with m(1) show ?case by simp
qed



lemma scan_run_asc:
  fixes f :: "'k \<Rightarrow> 'o::linorder"
  assumes "\<And>a b. a \<in> insert prev (set xs) \<Longrightarrow> b \<in> insert prev (set xs) \<Longrightarrow> lt a b = Inr (f a < f b)"
  shows "\<exists>j. scan_run False lt prev xs n = Inr (n + j) \<and> j \<le> length xs
             \<and> sorted (map f (prev # take j xs))"
  using assms
proof (induction xs arbitrary: prev n)
  case Nil
  then show ?case by simp
next
  case (Cons x xs)
  have cmp: "lt x prev = Inr (f x < f prev)" using Cons.prems by simp
  show ?case
  proof (cases "f x < f prev")
    case True
    with cmp have "scan_run False lt prev (x # xs) n = Inr (n + 0)" by simp
    then show ?thesis by (intro exI[of _ 0]) simp
  next
    case False
    have "\<exists>j. scan_run False lt x xs (Suc n) = Inr (Suc n + j) \<and> j \<le> length xs
             \<and> sorted (map f (x # take j xs))"
      by (rule Cons.IH) (use Cons.prems in auto)
    then obtain j where j: "scan_run False lt x xs (Suc n) = Inr (Suc n + j)" "j \<le> length xs"
        "sorted (map f (x # take j xs))" by blast
    from cmp False j(1) have "scan_run False lt prev (x # xs) n = Inr (n + Suc j)" by simp
    moreover have "sorted (map f (prev # take (Suc j) (x # xs)))"
      using j(3) False by auto
    ultimately show ?thesis using j(2) by (intro exI[of _ "Suc j"]) simp
  qed
qed

lemma scan_run_desc:
  fixes f :: "'k \<Rightarrow> 'o::linorder"
  assumes "\<And>a b. a \<in> insert prev (set xs) \<Longrightarrow> b \<in> insert prev (set xs) \<Longrightarrow> lt a b = Inr (f a < f b)"
  shows "\<exists>j. scan_run True lt prev xs n = Inr (n + j) \<and> j \<le> length xs
             \<and> sorted (map f (rev (prev # take j xs)))"
  using assms
proof (induction xs arbitrary: prev n)
  case Nil
  then show ?case by simp
next
  case (Cons x xs)
  have cmp: "lt x prev = Inr (f x < f prev)" using Cons.prems by simp
  show ?case
  proof (cases "f x < f prev")
    case False
    with cmp have "scan_run True lt prev (x # xs) n = Inr (n + 0)" by simp
    then show ?thesis by (intro exI[of _ 0]) simp
  next
    case True
    have "\<exists>j. scan_run True lt x xs (Suc n) = Inr (Suc n + j) \<and> j \<le> length xs
             \<and> sorted (map f (rev (x # take j xs)))"
      by (rule Cons.IH) (use Cons.prems in auto)
    then obtain j where j: "scan_run True lt x xs (Suc n) = Inr (Suc n + j)" "j \<le> length xs"
        "sorted (map f (rev (x # take j xs)))" by blast
    from cmp True j(1) have "scan_run True lt prev (x # xs) n = Inr (n + Suc j)" by simp
    moreover have "sorted (map f (rev (prev # take (Suc j) (x # xs))))"
      using j(3) True by (auto simp: sorted_append)
    ultimately show ?thesis using j(2) by (intro exI[of _ "Suc j"]) simp
  qed
qed

lemma count_run_sorted:
  fixes f :: "'k \<Rightarrow> 'o::linorder"
  assumes ag: "\<And>a b. a \<in> set ks \<Longrightarrow> b \<in> set ks \<Longrightarrow> lt a b = Inr (f a < f b)"
    and len: "2 \<le> length ks"
  shows "\<exists>n desc. count_run lt ks = Inr (n, desc) \<and> n \<le> length ks
            \<and> sorted (map f (if desc then rev (take n ks) else take n ks))"
proof -
  from len obtain k0 k1 rest where ks: "ks = k0 # k1 # rest"
    by (cases ks; cases "tl ks") auto
  have cmp: "lt k1 k0 = Inr (f k1 < f k0)" using ag by (simp add: ks)
  have ag': "\<And>a b. a \<in> insert k1 (set rest) \<Longrightarrow> b \<in> insert k1 (set rest) \<Longrightarrow> lt a b = Inr (f a < f b)"
    using ag by (auto simp: ks)
  show ?thesis
  proof (cases "f k1 < f k0")
    case True
    from scan_run_desc[of k1 rest lt f 2, OF ag']
    obtain j where j: "scan_run True lt k1 rest 2 = Inr (2 + j)" "j \<le> length rest"
        "sorted (map f (rev (k1 # take j rest)))" by blast
    have "count_run lt ks = Inr (2 + j, True)"
      using cmp True j(1) by (simp add: count_run_def ks)
    moreover have "sorted (map f (rev (take (2 + j) ks)))"
      using j(3) True by (auto simp: ks sorted_append)
    ultimately show ?thesis using j(2) by (intro exI[of _ "2 + j"] exI[of _ True]) (simp add: ks)
  next
    case False
    from scan_run_asc[of k1 rest lt f 2, OF ag']
    obtain j where j: "scan_run False lt k1 rest 2 = Inr (2 + j)" "j \<le> length rest"
        "sorted (map f (k1 # take j rest))" by blast
    have "count_run lt ks = Inr (2 + j, False)"
      using cmp False j(1) by (simp add: count_run_def ks)
    moreover have "sorted (map f (take (2 + j) ks))"
      using j(3) False by (auto simp: ks)
    ultimately show ?thesis using j(2) by (intro exI[of _ "2 + j"] exI[of _ False]) (simp add: ks)
  qed
qed

lemma list_sort_sorted:
  fixes f :: "'k \<Rightarrow> 'o::linorder"
  assumes ag: "\<And>a b. a \<in> fst ` set items \<Longrightarrow> b \<in> fst ` set items \<Longrightarrow> lt a b = Inr (f a < f b)"
  shows "snd (list_sort lt items) = None
         \<and> sorted (map (\<lambda>x. f (fst x)) (fst (list_sort lt items)))"
proof (cases "length items < 2")
  case True
  then have "items = [] \<or> (\<exists>x. items = [x])"
    by (cases items; cases "tl items") auto
  then show ?thesis by (auto simp: list_sort_def)
next
  case False
  then have len: "2 \<le> length (map fst items)" by simp
  have ag': "\<And>a b. a \<in> set (map fst items) \<Longrightarrow> b \<in> set (map fst items) \<Longrightarrow> lt a b = Inr (f a < f b)"
    using ag by simp
  from count_run_sorted[of "map fst items" lt f, OF ag' len]
  obtain n desc where c: "count_run lt (map fst items) = Inr (n, desc)" "n \<le> length items"
      "sorted (map f (if desc then rev (take n (map fst items)) else take n (map fst items)))"
    by auto
  define pre where "pre = (if desc then rev (take n items) else take n items)"
  have srt: "sorted (map (\<lambda>x. f (fst x)) pre)"
    using c(3) by (auto simp: pre_def take_map rev_map comp_def split: if_splits)
  have sets: "set pre \<union> set (drop n items) = set items"
    by (metis append_take_drop_id pre_def set_append set_rev)
  have "snd (binarysort lt pre (drop n items)) = None
         \<and> sorted (map (\<lambda>x. f (fst x)) (fst (binarysort lt pre (drop n items))))"
    by (rule binarysort_sorted) (use ag srt in \<open>simp_all only: sets\<close>)
  then show ?thesis using False c(1) by (simp add: list_sort_def pre_def)
qed


lemma sort_by_key_sorted:
  fixes f :: "'k \<Rightarrow> 'o::linorder"
  assumes ag: "\<And>a b. a \<in> key ` set rows \<Longrightarrow> b \<in> key ` set rows \<Longrightarrow> lt a b = Inr (f a < f b)"
  shows "snd (sort_by_key key lt rows) = None
         \<and> sorted (map (\<lambda>r. f (key r)) (fst (sort_by_key key lt rows)))"
proof -
  let ?items = "map (\<lambda>r. (key r, r)) rows"
  obtain out err where ls: "list_sort lt ?items = (out, err)"
    by (cases "list_sort lt ?items")
  have ag': "\<And>a b. a \<in> fst ` set ?items \<Longrightarrow> b \<in> fst ` set ?items \<Longrightarrow> lt a b = Inr (f a < f b)"
    using ag by (auto simp: image_iff)
  from list_sort_sorted[of ?items lt f, OF ag'] ls
  have e: "err = None" and s: "sorted (map (\<lambda>x. f (fst x)) out)" by simp_all
  from list_sort_mset[of lt ?items] ls have "mset out = mset ?items" by simp
  then have "set out = set ?items" by (rule mset_eq_setD)
  then have k: "\<forall>x\<in>set out. fst x = key (snd x)" by auto
  have "map (\<lambda>x. f (fst x)) out = map (\<lambda>r. f (key r)) (map snd out)"
    using k by (simp add: comp_def)
  with s e ls show ?thesis by (simp add: sort_by_key_def)
qed

lemma py_eq_num: "num_of a = Some x \<Longrightarrow> num_of b = Some y \<Longrightarrow> py_eq a b = (x = y)"
  by (cases a; cases b) auto

lemma py_lt_num: "num_of a = Some x \<Longrightarrow> num_of b = Some y \<Longrightarrow> py_lt a b = Inr (x < y)"
  by (cases a; cases b) auto

lemma house_key_num:
  assumes "v = JNull \<or> known_below_99 v"
  shows "num_of (house_key v) = Some (house_rank v)"
  using assms
  by (auto simp: house_key_def house_rank_def known_below_99_def split: option.splits)

lemma house_rank_cases:
  assumes "v = JNull \<or> known_below_99 v"
  shows "if v = JNull then house_rank v = 99 else house_rank v < 99"
  using assms
  by (auto simp: house_key_def house_rank_def known_below_99_def split: option.splits)

lemma tuple_lt_rank:
  assumes "num_of a = Some x" "num_of b = Some y"
  shows "tuple_lt (a, s) (b, u) = Inr ((x, s) < (y, u))"
  using assms by (auto simp: tuple_lt_def py_eq_num py_lt_num)

lemma missing_last_if_sorted:
  fixes rank :: "'r \<Rightarrow> real"
  assumes "sorted (map rank out)"
    and "\<forall>r\<in>set out. if house_no r = JNull then rank r = 99 else rank r < 99"
  shows "missing_last house_no out"
  using assms
proof (induction out)
  case Nil
  then show ?case by simp
next
  case (Cons r rs)
  have "house_no q = JNull" if "house_no r = JNull" "q \<in> set rs" for q
  proof (rule ccontr)
    assume "house_no q \<noteq> JNull"
    with Cons.prems(2) that have "rank q < 99" "rank r = 99" by auto
    moreover from Cons.prems(1) that have "rank r \<le> rank q" by auto
    ultimately show False by simp
  qed
  with Cons show ?case by (auto simp: list_all_iff)
qed

lemma sorted_fst:
  fixes g :: "'r \<Rightarrow> real \<times> string"
  assumes "sorted (map g out)"
  shows "sorted (map (\<lambda>r. fst (g r)) out)"
  using assms by (induction out) (auto simp: less_eq_prod_def)

lemma sort_pairs_missing_last:
  fixes house_no :: "'r \<Rightarrow> json" and name :: "'r \<Rightarrow> string"
  assumes h: "\<forall>r\<in>set rows. house_no r = JNull \<or> known_below_99 (house_no r)"
  defines "out \<equiv> sort_by_key (\<lambda>r. (house_key (house_no r), name r)) tuple_lt rows"
  shows "snd out = None \<and> mset (fst out) = mset rows \<and> missing_last house_no (fst out)
         \<and> sorted (map (\<lambda>r. (house_rank (house_no r), name r)) (fst out))"
proof -
  let ?key = "\<lambda>r. (house_key (house_no r), name r)"
  let ?f = "\<lambda>k :: json \<times> string. (case num_of (fst k) of Some x \<Rightarrow> x | None \<Rightarrow> 0, snd k)"
  have ag: "lt_ok" if "a \<in> ?key ` set rows" "b \<in> ?key ` set rows"
    and "lt_ok = (tuple_lt a b = Inr (?f a < ?f b))" for a b lt_ok
  proof -
    from that(1,2) obtain r q where r: "r \<in> set rows" "a = ?key r"
      and q: "q \<in> set rows" "b = ?key q"
      by auto
    from h r q have "num_of (house_key (house_no r)) = Some (house_rank (house_no r))"
      "num_of (house_key (house_no q)) = Some (house_rank (house_no q))"
      by (auto intro: house_key_num)
    then show ?thesis using that(3) r(2) q(2) by (simp add: tuple_lt_rank)
  qed
  have s: "snd out = None \<and> sorted (map (\<lambda>r. ?f (?key r)) (fst out))"
    unfolding out_def by (rule sort_by_key_sorted) (rule ag, assumption+, rule refl)
  have m: "mset (fst out) = mset rows" unfolding out_def by (rule sort_by_key_mset)
  then have se: "set (fst out) = set rows" by (rule mset_eq_setD)
  have s2: "sorted (map (\<lambda>r. (house_rank (house_no r), name r)) (fst out))"
    using s by (simp add: house_rank_def)
  then have "sorted (map (\<lambda>r. house_rank (house_no r)) (fst out))"
    using sorted_fst[of "\<lambda>r. (house_rank (house_no r), name r)" "fst out"] by simp
  moreover have "\<forall>r\<in>set (fst out). if house_no r = JNull then house_rank (house_no r) = 99
                   else house_rank (house_no r) < 99"
    using h se house_rank_cases by blast
  ultimately have "missing_last house_no (fst out)" by (rule missing_last_if_sorted)
  with s m s2 show ?thesis by simp
qed

lemma sort_single_missing_last:
  fixes house_no :: "'r \<Rightarrow> json"
  assumes h: "\<forall>r\<in>set rows. house_no r = JNull \<or> known_below_99 (house_no r)"
  defines "out \<equiv> sort_by_key (\<lambda>r. house_key (house_no r)) py_lt rows"
  shows "snd out = None \<and> mset (fst out) = mset rows \<and> missing_last house_no (fst out)
         \<and> sorted (map (\<lambda>r. house_rank (house_no r)) (fst out))"
proof -
  let ?key = "\<lambda>r. house_key (house_no r)"
  let ?f = "\<lambda>k :: json. (case num_of k of Some x \<Rightarrow> x | None \<Rightarrow> (0::real))"
  have ag: "lt_ok" if "a \<in> ?key ` set rows" "b \<in> ?key ` set rows"
    and "lt_ok = (py_lt a b = Inr (?f a < ?f b))" for a b lt_ok
  proof -
    from that(1,2) obtain r q where r: "r \<in> set rows" "a = ?key r"
      and q: "q \<in> set rows" "b = ?key q"
      by auto
    from h r q have "num_of (house_key (house_no r)) = Some (house_rank (house_no r))"
      "num_of (house_key (house_no q)) = Some (house_rank (house_no q))"
      by (auto intro: house_key_num)
    then show ?thesis using that(3) r(2) q(2) by (simp add: py_lt_num)
  qed
  have s: "snd out = None \<and> sorted (map (\<lambda>r. ?f (?key r)) (fst out))"
    unfolding out_def by (rule sort_by_key_sorted) (rule ag, assumption+, rule refl)
  have m: "mset (fst out) = mset rows" unfolding out_def by (rule sort_by_key_mset)
  then have se: "set (fst out) = set rows" by (rule mset_eq_setD)
  have s2: "sorted (map (\<lambda>r. house_rank (house_no r)) (fst out))"
    using s by (simp add: house_rank_def)
  moreover have "\<forall>r\<in>set (fst out). if house_no r = JNull then house_rank (house_no r) = 99
                   else house_rank (house_no r) < 99"
    using h se house_rank_cases by blast
  ultimately have "missing_last house_no (fst out)" by (rule missing_last_if_sorted)
  with s m s2 show ?thesis by simp
qed

text \<open>
  Claim C5, as amended. In a list of rows in which every known house number is a number
  below 99, the sorting step raises nothing and returns the same rows, every row whose
  house number is missing after every row whose house number is known, whatever the
  input order; the planet rows are in the order of house number (99 for a missing one)
  and then of \<^verbatim>\<open>str(planet)\<close>, the house rows in the order of house number.
\<close>

theorem missing_house_rows_sort_last:
  "((\<forall>r\<in>set drows. dr_house_no r = JNull \<or> known_below_99 (dr_house_no r)) \<longrightarrow>
      snd (sort_div_rows rp drows) = None
      \<and> mset (fst (sort_div_rows rp drows)) = mset drows
      \<and> missing_last dr_house_no (fst (sort_div_rows rp drows))
      \<and> sorted (map (\<lambda>r. (house_rank (dr_house_no r), py_str rp (dr_planet r)))
                  (fst (sort_div_rows rp drows))))
   \<and> ((\<forall>r\<in>set krows. kp_house_no r = JNull \<or> known_below_99 (kp_house_no r)) \<longrightarrow>
      snd (sort_kp_rows rp krows) = None
      \<and> mset (fst (sort_kp_rows rp krows)) = mset krows
      \<and> missing_last kp_house_no (fst (sort_kp_rows rp krows))
      \<and> sorted (map (\<lambda>r. (house_rank (kp_house_no r), py_str rp (kp_planet r)))
                  (fst (sort_kp_rows rp krows))))
   \<and> ((\<forall>r\<in>set hrows. kh_house_no r = JNull \<or> known_below_99 (kh_house_no r)) \<longrightarrow>
      snd (sort_kh_rows hrows) = None
      \<and> mset (fst (sort_kh_rows hrows)) = mset hrows
      \<and> missing_last kh_house_no (fst (sort_kh_rows hrows))
      \<and> sorted (map (\<lambda>r. house_rank (kh_house_no r)) (fst (sort_kh_rows hrows))))"
  unfolding sort_div_rows_def sort_kp_rows_def sort_kh_rows_def
  by (intro conjI impI sort_pairs_missing_last sort_single_missing_last)

text \<open>Rows with missing house numbers first in the input, among houses 7, 2 and 1.\<close>

theorem missing_house_rows_sort_last_witness:
  "list_all (\<lambda>r. dr_house_no r = JNull \<or> known_below_99 (dr_house_no r))
      [div_planet_in_house ''Moon'' JNull, div_planet_in_house ''Sun'' (JInt 7),
       div_planet_in_house ''Mars'' JNull, div_planet_in_house ''Venus'' (JInt 2)]
   \<and> fst (sort_div_rows no_repr [div_planet_in_house ''Moon'' JNull, div_planet_in_house ''Sun'' (JInt 7),
               div_planet_in_house ''Mars'' JNull, div_planet_in_house ''Venus'' (JInt 2)])
       = [div_planet_in_house ''Venus'' (JInt 2), div_planet_in_house ''Sun'' (JInt 7),
          div_planet_in_house ''Mars'' JNull, div_planet_in_house ''Moon'' JNull]
   \<and> list_all (\<lambda>r. kp_house_no r = JNull \<or> known_below_99 (kp_house_no r))
      [planet_in_house ''Moon'' JNull, planet_in_house ''Sun'' (JInt 7)]
   \<and> fst (sort_kp_rows no_repr [planet_in_house ''Moon'' JNull, planet_in_house ''Sun'' (JInt 7)])
       = [planet_in_house ''Sun'' (JInt 7), planet_in_house ''Moon'' JNull]
   \<and> list_all (\<lambda>r. kh_house_no r = JNull \<or> known_below_99 (kh_house_no r))
      [house_numbered JNull, house_numbered (JInt 2), house_numbered (JInt 1)]
   \<and> fst (sort_kh_rows [house_numbered JNull, house_numbered (JInt 2), house_numbered (JInt 1)])
       = [house_numbered (JInt 1), house_numbered (JInt 2), house_numbered JNull]
   \<and> missing_last dr_house_no
        (fst (sort_div_rows no_repr [div_planet_in_house ''Moon'' JNull,
               div_planet_in_house ''Sun'' (JInt 7), div_planet_in_house ''Mars'' JNull,
               div_planet_in_house ''Venus'' (JInt 2)]))
   \<and> missing_last kp_house_no
        (fst (sort_kp_rows no_repr [planet_in_house ''Moon'' JNull, planet_in_house ''Sun'' (JInt 7)]))
   \<and> missing_last kh_house_no
        (fst (sort_kh_rows [house_numbered JNull, house_numbered (JInt 2),
               house_numbered (JInt 1)]))"
proof -
  let ?d = "[div_planet_in_house ''Moon'' JNull, div_planet_in_house ''Sun'' (JInt 7),
             div_planet_in_house ''Mars'' JNull, div_planet_in_house ''Venus'' (JInt 2)]"
  let ?k = "[planet_in_house ''Moon'' JNull, planet_in_house ''Sun'' (JInt 7)]"
  let ?h = "[house_numbered JNull, house_numbered (JInt 2), house_numbered (JInt 1)]"
  have hd: "\<forall>r\<in>set ?d. dr_house_no r = JNull \<or> known_below_99 (dr_house_no r)"
    by (simp add: div_planet_in_house_def known_below_99_def)
  have hk: "\<forall>r\<in>set ?k. kp_house_no r = JNull \<or> known_below_99 (kp_house_no r)"
    by (simp add: planet_in_house_def known_below_99_def)
  have hh: "\<forall>r\<in>set ?h. kh_house_no r = JNull \<or> known_below_99 (kh_house_no r)"
    by (simp add: house_numbered_def known_below_99_def)
  have ed: "fst (sort_div_rows no_repr ?d)
       = [div_planet_in_house ''Venus'' (JInt 2), div_planet_in_house ''Sun'' (JInt 7),
          div_planet_in_house ''Mars'' JNull, div_planet_in_house ''Moon'' JNull]"
    by code_simp
  have ek: "fst (sort_kp_rows no_repr ?k)
       = [planet_in_house ''Sun'' (JInt 7), planet_in_house ''Moon'' JNull]"
    by code_simp
  have eh: "fst (sort_kh_rows ?h)
       = [house_numbered (JInt 1), house_numbered (JInt 2), house_numbered JNull]"
    by code_simp
  from missing_house_rows_sort_last[where drows = ?d and krows = ?k and hrows = ?h and rp = no_repr]
    hd hk hh
  have "missing_last dr_house_no (fst (sort_div_rows no_repr ?d))"
    "missing_last kp_house_no (fst (sort_kp_rows no_repr ?k))"
    "missing_last kh_house_no (fst (sort_kh_rows ?h))"
    by blast+
  with hd hk hh ed ek eh show ?thesis by (simp only: list_all_iff simp_thms)
qed

text \<open>
  Claim C5 as stated fails: the sort key puts 99 in the place of a missing house number,
  so a row whose known house number is 100 comes after a row whose house number is
  missing.
\<close>

theorem house_100_after_missing:
  "flatten_kundli_planets no_repr house_100
     = Inr [planet_in_house ''Moon'' JNull, planet_in_house ''Sun'' (JInt 100)]
   \<and> \<not> missing_last kp_house_no
        [planet_in_house ''Moon'' JNull, planet_in_house ''Sun'' (JInt 100)]"
  by code_simp








section \<open>The flattening functions on well-formed responses\<close>

lemma ebind_Inr: "ebind (Inr v) f = f v" by (simp add: ebind_def)
lemma ebind_Inl: "ebind (Inl e) f = Inl e" by (simp add: ebind_def)
lemma py_get_obj: "py_get (JObj kvs) k = Inr (field kvs k)"
  by (simp add: py_get_def py_get_default_def field_def split: option.splits)







lemma first_list_obj:
  "first_list (JObj kvs) keys = Inr (case List.find (\<lambda>k. is_list (field kvs k)) keys of
       None \<Rightarrow> None | Some k \<Rightarrow> (case field kvs k of JList xs \<Rightarrow> Some xs | _ \<Rightarrow> None))"
  by (induction keys) (auto simp: py_get_obj ebind_Inr is_list_def split: json.splits)
























end
